theory Spec2Isabelle
  imports Complex_Main "HOL-Library.Word"
begin

unbundle bit_operations_syntax

section \<open>Machine integers and byte order\<close>

text \<open>
  The C++ sources use the fixed-width types \<open>int8\<close>, \<open>int16\<close>, \<open>int32\<close> of pvData and
  \<open>size_t\<close>. They are machine words here; \<open>size_t\<close> is taken as on an LP64 platform
  (64 bits). Signed comparisons are written with \<open>sint\<close>, conversions with \<open>signed\<close>
  (sign extension) and \<open>word_of_nat\<close>/\<open>word_of_int\<close> (truncation).
\<close>

type_synonym int8 = "8 word"
type_synonym int16 = "16 word"
type_synonym int32 = "32 word"
type_synonym size_t = "64 word"

text \<open>Four bytes, most significant first, as one 32-bit value, and back.\<close>

definition int32_of_bytes :: "int8 list \<Rightarrow> int32" where
  "int32_of_bytes bs = foldl (\<lambda>acc b. push_bit 8 acc OR ucast b) 0 bs"

definition bytes_of_int32 :: "int32 \<Rightarrow> int8 list" where
  "bytes_of_int32 w =
     [ucast (drop_bit 24 w), ucast (drop_bit 16 w), ucast (drop_bit 8 w), ucast w]"

section \<open>ByteBuffer\<close>

text \<open>
  \<open>epics::pvData::ByteBuffer\<close> belongs to the pvData library, which the transport code
  only calls. The model keeps what the callers rely on: a backing array of fixed capacity,
  a cursor, a limit and a byte order. A relative or absolute access that does not fit
  raises (result \<open>None\<close>) and leaves the buffer as it was.
\<close>

record ByteBuffer =
  array :: "int8 list"
  position :: nat
  limit :: nat
  bigEndian :: bool

definition newByteBuffer :: "nat \<Rightarrow> bool \<Rightarrow> ByteBuffer" where
  "newByteBuffer capacity nativeBig =
     \<lparr>array = replicate capacity 0, position = 0, limit = capacity, bigEndian = nativeBig\<rparr>"

definition clear :: "ByteBuffer \<Rightarrow> ByteBuffer" where
  "clear b = b\<lparr>position := 0, limit := length (array b)\<rparr>"

definition flip :: "ByteBuffer \<Rightarrow> ByteBuffer" where
  "flip b = b\<lparr>limit := position b, position := 0\<rparr>"

definition getPosition :: "ByteBuffer \<Rightarrow> nat" where
  "getPosition b = position b"

definition getLimit :: "ByteBuffer \<Rightarrow> nat" where
  "getLimit b = limit b"

definition setPosition :: "nat \<Rightarrow> ByteBuffer \<Rightarrow> ByteBuffer" where
  "setPosition pos b = b\<lparr>position := pos\<rparr>"

definition setEndianess :: "bool \<Rightarrow> ByteBuffer \<Rightarrow> ByteBuffer" where
  "setEndianess big b = b\<lparr>bigEndian := big\<rparr>"

text \<open>\<open>getRemaining\<close> is \<open>limit - position\<close> computed in \<open>size_t\<close>.\<close>

definition getRemaining :: "ByteBuffer \<Rightarrow> size_t" where
  "getRemaining b = word_of_nat (limit b) - word_of_nat (position b)"

definition fits :: "ByteBuffer \<Rightarrow> nat \<Rightarrow> nat \<Rightarrow> bool" where
  "fits b i n \<longleftrightarrow> i + n \<le> limit b \<and> i + n \<le> length (array b)"

definition readBytes :: "ByteBuffer \<Rightarrow> nat \<Rightarrow> nat \<Rightarrow> int8 list" where
  "readBytes b i n = take n (drop i (array b))"

definition writeBytes :: "ByteBuffer \<Rightarrow> nat \<Rightarrow> int8 list \<Rightarrow> ByteBuffer" where
  "writeBytes b i bs = b\<lparr>array := take i (array b) @ bs @ drop (i + length bs) (array b)\<rparr>"

definition ordered :: "ByteBuffer \<Rightarrow> int8 list \<Rightarrow> int8 list" where
  "ordered b bs = (if bigEndian b then bs else rev bs)"

definition getByte :: "ByteBuffer \<Rightarrow> (int8 \<times> ByteBuffer) option" where
  "getByte b =
     (if fits b (position b) 1
      then Some (array b ! position b, b\<lparr>position := position b + 1\<rparr>)
      else None)"

definition getInt :: "ByteBuffer \<Rightarrow> (int32 \<times> ByteBuffer) option" where
  "getInt b =
     (if fits b (position b) 4
      then Some (int32_of_bytes (ordered b (readBytes b (position b) 4)),
                 b\<lparr>position := position b + 4\<rparr>)
      else None)"

definition putByte :: "int8 \<Rightarrow> ByteBuffer \<Rightarrow> ByteBuffer option" where
  "putByte v b =
     (if fits b (position b) 1
      then Some ((writeBytes b (position b) [v])\<lparr>position := position b + 1\<rparr>)
      else None)"

definition putBytes :: "int8 list \<Rightarrow> ByteBuffer \<Rightarrow> ByteBuffer option" where
  "putBytes vs b =
     (if fits b (position b) (length vs)
      then Some ((writeBytes b (position b) vs)\<lparr>position := position b + length vs\<rparr>)
      else None)"

definition putInt :: "int32 \<Rightarrow> ByteBuffer \<Rightarrow> ByteBuffer option" where
  "putInt v b = putBytes (ordered b (bytes_of_int32 v)) b"

text \<open>The absolute \<open>putInt(index, value)\<close>: the cursor does not move.\<close>

definition putIntAt :: "nat \<Rightarrow> int32 \<Rightarrow> ByteBuffer \<Rightarrow> ByteBuffer option" where
  "putIntAt index v b =
     (if fits b index 4
      then Some (writeBytes b index (ordered b (bytes_of_int32 v)))
      else None)"

section \<open>The state a transport call can touch\<close>

record osiSockAddr =
  sin_family :: "16 word"
  sin_port :: "16 word"
  s_addr :: "32 word"

datatype errlogSevEnum = errlogInfo | errlogMinor | errlogMajor | errlogFatal

text \<open>
  What the code prints: an \<open>errlogSevPrintf\<close> line with its severity, format string and
  command argument, or a \<open>hexDump\<close> of the payload buffer from an offset for a length
  (the titles of a dump and the printed peer address are left out).
\<close>

datatype printed =
  errlogSevPrintf errlogSevEnum string int8
  | hexDump nat int32

text \<open>
  The fields of \<open>BlockingUDPTransport\<close>, followed by the three values the \<open>Transport\<close>
  setters record, the datagrams handed to \<open>sendto\<close> (target and bytes, in call order) and
  the console output. \<open>LOG\<close> lines at debug level are not modelled.
\<close>

record Transport =
  closed :: bool
  sendAddresses :: "osiSockAddr list option"
  ignoredAddresses :: "osiSockAddr list option"
  sendToEnabled :: bool
  sendTo :: osiSockAddr
  receiveBuffer :: ByteBuffer
  sendBuffer :: ByteBuffer
  lastMessageStartPosition :: nat
  remoteTransportReceiveBufferSize :: int32
  remoteTransportSocketReceiveBufferSize :: int32
  remoteMinorRevision :: int8
  wire :: "(osiSockAddr \<times> int8 list) list"
  console :: "printed list"

text \<open>
  A call either returns a value or throws; in both cases the state it leaves behind is
  kept, because \<open>enqueueSendRequest\<close> and \<open>processRead\<close> catch and go on.
\<close>

datatype 'a result = Returns 'a Transport | Throws Transport

type_synonym stmt = "Transport \<Rightarrow> unit result"

text \<open>Statements in sequence: the first one that throws ends the block.\<close>

fun seq :: "stmt list \<Rightarrow> stmt" where
  "seq [] t = Returns () t"
| "seq (c # cs) t = (case c t of Returns _ t' \<Rightarrow> seq cs t' | Throws t' \<Rightarrow> Throws t')"

definition onSendBuffer :: "(ByteBuffer \<Rightarrow> ByteBuffer option) \<Rightarrow> stmt" where
  "onSendBuffer f t =
     (case f (sendBuffer t) of
        None \<Rightarrow> Throws t
      | Some b \<Rightarrow> Returns () (t\<lparr>sendBuffer := b\<rparr>))"

text \<open>
  Constants of \<open>caConstants.h\<close> and of the build, which the sources use but do not define:
  the protocol version byte, the byte order of the host and the size of the UDP buffers.
\<close>

record platform =
  CA_VERSION :: int8
  EPICS_BYTE_ORDER_BIG :: bool
  MAX_UDP_RECV :: nat

text \<open>
  Modelled from the spec: \<open>CA_MAGIC\<close> and \<open>CA_MESSAGE_HEADER_SIZE\<close> are defined in
  \<open>caConstants.h\<close>, which is not among the sources. The spec gives the magic byte as the
  constant \<open>0xCA\<close> and the header as exactly 8 bytes.
\<close>

definition CA_MAGIC :: int8 where
  "CA_MAGIC = 0xCA"

definition CA_MESSAGE_HEADER_SIZE :: nat where
  "CA_MESSAGE_HEADER_SIZE = 8"

section \<open>Framing: startMessage and endMessage\<close>

definition startMessage :: "platform \<Rightarrow> int8 \<Rightarrow> nat \<Rightarrow> stmt" where
  "startMessage pf cmd ensureCapacity =
     seq [\<lambda>t. Returns () (t\<lparr>lastMessageStartPosition := getPosition (sendBuffer t)\<rparr>),
          onSendBuffer (putByte CA_MAGIC),
          onSendBuffer (putByte (CA_VERSION pf)),
          onSendBuffer (putByte (if EPICS_BYTE_ORDER_BIG pf then 0x80 else 0x00)),
          onSendBuffer (putByte cmd),
          onSendBuffer (putInt 0)]"

text \<open>
  The payload length is \<open>position - start - header size\<close> in \<open>size_t\<close>, narrowed to the
  \<open>int32\<close> that \<open>putInt\<close> takes, and written at \<open>start + (sizeof(int16) + 2)\<close>.
\<close>

definition endMessage :: stmt where
  "endMessage t =
     onSendBuffer
       (putIntAt (lastMessageStartPosition t + (2 + 2))
          (word_of_int (int (getPosition (sendBuffer t)) - int (lastMessageStartPosition t)
                        - int CA_MESSAGE_HEADER_SIZE)))
       t"

section \<open>Sending\<close>

text \<open>
  \<open>send(buffer, address)\<close> and \<open>send(buffer)\<close>: the buffer is flipped and its bytes up to
  the limit are handed to \<open>sendto\<close>, once for the given address or once for every
  configured send address. The result of \<open>sendto\<close> only decides the \<open>bool\<close> returned, which
  \<open>enqueueSendRequest\<close> drops, so \<open>wire\<close> lists the calls made.
\<close>

definition sendto :: "osiSockAddr \<Rightarrow> Transport \<Rightarrow> Transport" where
  "sendto address t =
     t\<lparr>wire := wire t @ [(address, take (getLimit (sendBuffer t)) (array (sendBuffer t)))]\<rparr>"

definition send_to :: "osiSockAddr \<Rightarrow> stmt" where
  "send_to address t = Returns () (sendto address (t\<lparr>sendBuffer := flip (sendBuffer t)\<rparr>))"

definition send_all :: stmt where
  "send_all t =
     (case sendAddresses t of
        None \<Rightarrow> Returns () t
      | Some addresses \<Rightarrow>
          Returns () (foldl (\<lambda>s a. sendto a s) (t\<lparr>sendBuffer := flip (sendBuffer t)\<rparr>) addresses))"

text \<open>
  Modelled from the spec: \<open>setRecipient\<close> is declared in \<open>blockingUDP.h\<close>, which is not
  among the sources; it "switches the pending send from broadcast to unicast".
\<close>

definition setRecipient :: "osiSockAddr \<Rightarrow> stmt" where
  "setRecipient address t = Returns () (t\<lparr>sendTo := address, sendToEnabled := True\<rparr>)"

text \<open>
  A \<open>TransportSender\<close> is given by its \<open>send\<close> method, which gets the send buffer and the
  send control, both part of the transport. \<open>lock\<close> and \<open>unlock\<close> of the two senders in the
  sources do not touch the transport. An exception from the sender, from \<open>endMessage\<close> or
  from the send is swallowed by the \<open>catch (...)\<close>.
\<close>

definition enqueueSendRequest :: "stmt \<Rightarrow> stmt" where
  "enqueueSendRequest sender t =
     (case seq [sender,
                endMessage,
                \<lambda>s. if \<not> sendToEnabled s then send_all s else send_to (sendTo s) s]
             (t\<lparr>sendToEnabled := False, sendBuffer := clear (sendBuffer t)\<rparr>) of
        Returns _ t' \<Rightarrow> Returns () t'
      | Throws t' \<Rightarrow> Returns () t')"

section \<open>Response handlers\<close>

text \<open>
  A response handler gets the source address, the version and command bytes of the header,
  the payload size and the payload buffer. The payload buffer is the receive buffer of the
  transport it is called on, as \<open>processBuffer\<close> passes it.
\<close>

type_synonym ResponseHandler = "osiSockAddr \<Rightarrow> int8 \<Rightarrow> int8 \<Rightarrow> int32 \<Rightarrow> stmt"

text \<open>The handler classes of \<open>responseHandlers.cpp\<close>, each with its \<open>_debug\<close> flag.\<close>

datatype handler =
  NoopResponse bool
  | ConnectionValidationHandler bool
  | EchoHandler bool
  | BadResponse bool

text \<open>
  Modelled from the spec: \<open>CMD_ECHO\<close> and \<open>HANDLER_TABLE_LENGTH\<close> are defined in headers
  that are not among the sources. The spec gives command 2 as echo and a table of exactly
  28 slots.
\<close>

definition CMD_ECHO :: int8 where
  "CMD_ECHO = 2"

definition HANDLER_TABLE_LENGTH :: nat where
  "HANDLER_TABLE_LENGTH = 28"

definition AbstractResponseHandler_handleResponse :: "bool \<Rightarrow> ResponseHandler" where
  "AbstractResponseHandler_handleResponse debug responseFrom version cmd payloadSize t =
     (if debug
      then Returns () (t\<lparr>console := console t
                            @ [hexDump (getPosition (receiveBuffer t)) payloadSize]\<rparr>)
      else Returns () t)"

text \<open>
  Modelled from the spec: the \<open>Transport\<close> interface is declared in \<open>remote.h\<close>, which is
  not among the sources. \<open>ensureData\<close> "requires the transport to have at least" the given
  number of "bytes available; under-length triggers a framing error"; the three setters
  record the peer's receive-buffer size, socket receive-buffer size and minor revision.
\<close>

definition ensureData :: "nat \<Rightarrow> stmt" where
  "ensureData n t =
     (if unat (getRemaining (receiveBuffer t)) < n then Throws t else Returns () t)"

definition setRemoteTransportReceiveBufferSize :: "int32 \<Rightarrow> stmt" where
  "setRemoteTransportReceiveBufferSize v t =
     Returns () (t\<lparr>remoteTransportReceiveBufferSize := v\<rparr>)"

definition setRemoteTransportSocketReceiveBufferSize :: "int32 \<Rightarrow> stmt" where
  "setRemoteTransportSocketReceiveBufferSize v t =
     Returns () (t\<lparr>remoteTransportSocketReceiveBufferSize := v\<rparr>)"

definition setRemoteMinorRevision :: "int8 \<Rightarrow> stmt" where
  "setRemoteMinorRevision v t = Returns () (t\<lparr>remoteMinorRevision := v\<rparr>)"

text \<open>\<open>setter(payloadBuffer->getInt())\<close>: read, then call the setter with the value.\<close>

definition withPayloadInt :: "(int32 \<Rightarrow> stmt) \<Rightarrow> stmt" where
  "withPayloadInt setter t =
     (case getInt (receiveBuffer t) of
        None \<Rightarrow> Throws t
      | Some (v, b) \<Rightarrow> setter v (t\<lparr>receiveBuffer := b\<rparr>))"

definition ConnectionValidationHandler_handleResponse :: "bool \<Rightarrow> ResponseHandler" where
  "ConnectionValidationHandler_handleResponse debug responseFrom version cmd payloadSize =
     seq [AbstractResponseHandler_handleResponse debug responseFrom version cmd payloadSize,
          ensureData (2 * 4 + 2),
          withPayloadInt setRemoteTransportReceiveBufferSize,
          withPayloadInt setRemoteTransportSocketReceiveBufferSize,
          setRemoteMinorRevision version]"

definition EchoTransportSender_send :: "platform \<Rightarrow> osiSockAddr \<Rightarrow> stmt" where
  "EchoTransportSender_send pf echoFrom =
     seq [startMessage pf CMD_ECHO 0, setRecipient echoFrom]"

definition EchoHandler_handleResponse :: "platform \<Rightarrow> bool \<Rightarrow> ResponseHandler" where
  "EchoHandler_handleResponse pf debug responseFrom version cmd payloadSize =
     seq [AbstractResponseHandler_handleResponse debug responseFrom version cmd payloadSize,
          enqueueSendRequest (EchoTransportSender_send pf responseFrom)]"

definition BadResponse_handleResponse :: "bool \<Rightarrow> ResponseHandler" where
  "BadResponse_handleResponse debug responseFrom version cmd payloadSize =
     seq [AbstractResponseHandler_handleResponse debug responseFrom version cmd payloadSize,
          \<lambda>t. Returns () (t\<lparr>console := console t
                 @ [errlogSevPrintf errlogInfo
                      ''Undecipherable message (bad response type %d) from %s.'' cmd]\<rparr>)]"

text \<open>The virtual call \<open>handler->handleResponse(...)\<close>.\<close>

fun handleResponse :: "platform \<Rightarrow> handler \<Rightarrow> ResponseHandler" where
  "handleResponse pf (NoopResponse debug) = AbstractResponseHandler_handleResponse debug"
| "handleResponse pf (ConnectionValidationHandler debug) =
     ConnectionValidationHandler_handleResponse debug"
| "handleResponse pf (EchoHandler debug) = EchoHandler_handleResponse pf debug"
| "handleResponse pf (BadResponse debug) = BadResponse_handleResponse debug"

text \<open>
  The table the constructor of \<open>ServerResponseHandler\<close> fills: slots 0, 1 and 2, and one
  shared \<open>BadResponse\<close> in slots 3 to 27.
\<close>

definition ServerResponseHandler :: "bool \<Rightarrow> handler list" where
  "ServerResponseHandler debug =
     [NoopResponse debug, ConnectionValidationHandler debug, EchoHandler debug]
     @ replicate 25 (BadResponse debug)"

definition ServerResponseHandler_handleResponse ::
  "platform \<Rightarrow> handler list \<Rightarrow> ResponseHandler" where
  "ServerResponseHandler_handleResponse pf handlerTable responseFrom version cmd payloadSize t =
     (if sint cmd < 0 \<or> int HANDLER_TABLE_LENGTH \<le> sint cmd
      then Returns () (t\<lparr>console := console t
             @ [errlogSevPrintf errlogMinor ''Invalid (or unsupported) command: %d.'' cmd,
                hexDump (getPosition (receiveBuffer t)) payloadSize]\<rparr>)
      else handleResponse pf (handlerTable ! nat (sint cmd))
             responseFrom version cmd payloadSize t)"

section \<open>Receiving: processBuffer and processRead\<close>

text \<open>
  The local variables of one round of the loop in \<open>processBuffer\<close>, as they stand when the
  handler is called: the header bytes, the cursor after the header, \<open>nextRequestPosition\<close>
  and the limit of the buffer.
\<close>

record frame =
  magic :: int8
  version :: int8
  flags :: int8
  command :: int8
  payloadSize :: size_t
  headerEnd :: nat
  nextRequestPosition :: size_t
  datagramEnd :: nat

datatype header = Underflow ByteBuffer | BadFrame ByteBuffer | Header frame ByteBuffer

text \<open>
  Lines 260 to 284: the header is read byte by byte. A wrong magic byte ends the read after
  the version byte. \<open>getInt\<close> gives an \<open>int32\<close>, which the assignment to the \<open>size_t\<close>
  \<open>payloadSize\<close> sign-extends; the sum with the cursor is taken in \<open>size_t\<close>.
\<close>

definition readHeader :: "ByteBuffer \<Rightarrow> header" where
  "readHeader b0 =
     (case getByte b0 of None \<Rightarrow> Underflow b0 | Some (m, b1) \<Rightarrow>
      case getByte b1 of None \<Rightarrow> Underflow b1 | Some (v, b2) \<Rightarrow>
      if m \<noteq> CA_MAGIC then BadFrame b2 else
      case getByte b2 of None \<Rightarrow> Underflow b2 | Some (f, b3) \<Rightarrow>
      let b4 = setEndianess (sint f < 0) b3 in
      case getByte b4 of None \<Rightarrow> Underflow b4 | Some (c, b5) \<Rightarrow>
      case getInt b5 of None \<Rightarrow> Underflow b5 | Some (n, b6) \<Rightarrow>
      let psize = (signed n :: size_t);
          next = word_of_nat (getPosition b6) + psize
      in if word_of_nat (getLimit b6) < next then BadFrame b6
         else Header \<lparr>magic = m, version = v, flags = f, command = c, payloadSize = psize,
                       headerEnd = getPosition b6, nextRequestPosition = next,
                       datagramEnd = getLimit b6\<rparr> b6)"

text \<open>
  The loop of \<open>processBuffer\<close>, with fuel for the rounds: \<open>None\<close> in the second component
  says that the rounds given did not finish the loop. The first component lists the frames
  for which the handler was called. The handler is called with \<open>payloadSize\<close> narrowed to
  \<open>int\<close>; when it throws, so does \<open>processBuffer\<close>.
\<close>

fun processBuffer ::
  "nat \<Rightarrow> ResponseHandler \<Rightarrow> osiSockAddr \<Rightarrow> Transport \<Rightarrow> frame list \<times> bool result option"
where
  "processBuffer 0 responseHandler fromAddress t = ([], None)"
| "processBuffer (Suc k) responseHandler fromAddress t =
     (if int CA_MESSAGE_HEADER_SIZE \<le> sint (ucast (getRemaining (receiveBuffer t)) :: int32)
      then
        (case readHeader (receiveBuffer t) of
           Underflow b \<Rightarrow> ([], Some (Throws (t\<lparr>receiveBuffer := b\<rparr>)))
         | BadFrame b \<Rightarrow> ([], Some (Returns False (t\<lparr>receiveBuffer := b\<rparr>)))
         | Header fr b \<Rightarrow>
             (case responseHandler fromAddress (version fr) (command fr)
                     (ucast (payloadSize fr)) (t\<lparr>receiveBuffer := b\<rparr>) of
                Throws t' \<Rightarrow> ([fr], Some (Throws t'))
              | Returns _ t' \<Rightarrow>
                  (case processBuffer k responseHandler fromAddress
                          (t'\<lparr>receiveBuffer :=
                                setPosition (unat (nextRequestPosition fr)) (receiveBuffer t')\<rparr>) of
                     (frs, r) \<Rightarrow> (fr # frs, r))))
      else ([], Some (Returns True t)))"

text \<open>The search of the ignore list in \<open>processRead\<close>, leaving at the first match.\<close>

fun ignoredSource :: "osiSockAddr list \<Rightarrow> osiSockAddr \<Rightarrow> bool" where
  "ignoredSource [] fromAddress = False"
| "ignoredSource (a # as) fromAddress =
     (if s_addr a = s_addr fromAddress then True else ignoredSource as fromAddress)"

definition ignore :: "Transport \<Rightarrow> osiSockAddr \<Rightarrow> bool" where
  "ignore t fromAddress =
     (case ignoredAddresses t of
        None \<Rightarrow> False
      | Some addresses \<Rightarrow> ignoredSource addresses fromAddress)"

text \<open>
  \<open>recvfrom\<close> on the cleared receive buffer: the datagram, cut to the room in the buffer,
  lands at the start of the array, and its length is returned.
\<close>

definition recvfrom :: "int8 list \<Rightarrow> ByteBuffer \<Rightarrow> nat \<times> ByteBuffer" where
  "recvfrom datagram b =
     (let bytesRead = min (length datagram) (unat (getRemaining b))
      in (bytesRead, writeBytes b 0 (take bytesRead datagram)))"

text \<open>
  One round of the loop in \<open>processRead\<close> in which \<open>recvfrom\<close> delivers a datagram from
  \<open>fromAddress\<close>. An exception out of \<open>processBuffer\<close> reaches the \<open>catch (...)\<close>, which
  closes the transport.
\<close>

definition close :: "Transport \<Rightarrow> Transport" where
  "close t = (if closed t then t else t\<lparr>closed := True\<rparr>)"

definition processRead ::
  "nat \<Rightarrow> ResponseHandler \<Rightarrow> int8 list \<Rightarrow> osiSockAddr \<Rightarrow> Transport
     \<Rightarrow> frame list \<times> Transport option"
where
  "processRead k responseHandler datagram fromAddress t =
     (case recvfrom datagram (clear (receiveBuffer t)) of
        (bytesRead, b) \<Rightarrow>
          (let t1 = t\<lparr>receiveBuffer := b\<rparr> in
           if 0 < bytesRead then
             (if \<not> ignore t1 fromAddress then
                (case processBuffer k responseHandler fromAddress
                        (t1\<lparr>receiveBuffer := flip (setPosition bytesRead b)\<rparr>) of
                   (frs, None) \<Rightarrow> (frs, None)
                 | (frs, Some (Returns _ t')) \<Rightarrow> (frs, Some t')
                 | (frs, Some (Throws t')) \<Rightarrow> (frs, Some (close t')))
              else ([], Some t1))
           else ([], Some t1)))"

section \<open>Beacon emitter\<close>

text \<open>
  The fields of \<open>BeaconEmitter\<close> that decide the cadence, and the delays handed to
  \<open>scheduleAfterDelay\<close> in call order. The sequence id and the count limit are \<open>int16\<close>:
  the constructor casts the limit to \<open>int16\<close> and \<open>send\<close> writes the id with \<open>putShort\<close>.
\<close>

record BeaconEmitter =
  beaconSequenceID :: int16
  fastBeaconPeriod :: real
  slowBeaconPeriod :: real
  beaconCountLimit :: int16
  scheduled :: "real list"

definition EPICS_CA_MIN_BEACON_PERIOD :: real where
  "EPICS_CA_MIN_BEACON_PERIOD = 1.0"

definition EPICS_CA_MIN_BEACON_COUNT_LIMIT :: real where
  "EPICS_CA_MIN_BEACON_COUNT_LIMIT = 3.0"

text \<open>The constructor that takes the server context, given its beacon period.\<close>

definition BeaconEmitter_context :: "real \<Rightarrow> BeaconEmitter" where
  "BeaconEmitter_context beaconPeriod =
     (let fast = max beaconPeriod EPICS_CA_MIN_BEACON_PERIOD
      in \<lparr>beaconSequenceID = 0,
          fastBeaconPeriod = fast,
          slowBeaconPeriod = max 180.0 fast,
          beaconCountLimit = word_of_int \<lfloor>max 10.0 EPICS_CA_MIN_BEACON_COUNT_LIMIT\<rfloor>,
          scheduled = []\<rparr>)"

text \<open>The constructor that takes the server address.\<close>

definition BeaconEmitter_address :: BeaconEmitter where
  "BeaconEmitter_address =
     \<lparr>beaconSequenceID = 0,
      fastBeaconPeriod = EPICS_CA_MIN_BEACON_PERIOD,
      slowBeaconPeriod = 180.0,
      beaconCountLimit = 10,
      scheduled = []\<rparr>"

definition scheduleAfterDelay :: "real \<Rightarrow> BeaconEmitter \<Rightarrow> BeaconEmitter" where
  "scheduleAfterDelay delay em = em\<lparr>scheduled := scheduled em @ [delay]\<rparr>"

definition start :: "BeaconEmitter \<Rightarrow> BeaconEmitter" where
  "start em = scheduleAfterDelay 0.0 em"

definition reschedule :: "BeaconEmitter \<Rightarrow> BeaconEmitter" where
  "reschedule em =
     (let period = (if sint (beaconCountLimit em) \<le> sint (beaconSequenceID em)
                    then slowBeaconPeriod em else fastBeaconPeriod em)
      in if 0 < period then scheduleAfterDelay period em else em)"

text \<open>
  \<open>send\<close> on the path where the beacon message is written without an exception: the
  writes go to the send buffer of the transport, then the emitter increments its sequence
  id and reschedules.
\<close>

definition send :: "BeaconEmitter \<Rightarrow> BeaconEmitter" where
  "send em = reschedule (em\<lparr>beaconSequenceID := beaconSequenceID em + 1\<rparr>)"

text \<open>The emitter after \<open>start\<close> and the given number of beacons.\<close>

fun beacons :: "nat \<Rightarrow> BeaconEmitter \<Rightarrow> BeaconEmitter" where
  "beacons 0 em = start em"
| "beacons (Suc n) em = send (beacons n em)"

section \<open>Transport registry\<close>

text \<open>
  A transport as the registry sees it: a shared object with a priority and a pointer to its
  remote address. A pointer is given by the place it points to together with the address
  stored there.
\<close>

record osiSockAddr_ptr =
  place :: nat
  target :: osiSockAddr

record TransportRef =
  transportId :: nat
  getPriority :: int16
  getRemoteAddress :: osiSockAddr_ptr

text \<open>
  Modelled from the spec: the map type \<open>transportsMap_t\<close>, and with it the order that
  decides when two keys are the same, is declared in \<open>transportRegistry.h\<close>, which is not
  among the sources. The spec has the registry as a map from remote address to a map from
  priority to transport, with the socket address a value type and the key of an entry the
  pair of remote address and priority.
\<close>

definition addressKey :: "osiSockAddr_ptr \<Rightarrow> osiSockAddr" where
  "addressKey address = target address"

text \<open>
  The counter is a 32-bit \<open>int\<close>, as is the result of \<open>numberOfActiveTransports\<close>: \<open>++\<close> and
  \<open>--\<close> wrap around, and \<open>sint\<close> reads the value.
\<close>

record TransportRegistry =
  transports :: "osiSockAddr \<rightharpoonup> (int16 \<rightharpoonup> TransportRef)"
  transportCount :: int32

definition newTransportRegistry :: TransportRegistry where
  "newTransportRegistry = \<lparr>transports = Map.empty, transportCount = 0\<rparr>"

definition put :: "TransportRef \<Rightarrow> TransportRegistry \<Rightarrow> TransportRegistry" where
  "put transport r =
     (let priority = getPriority transport;
          address = addressKey (getRemoteAddress transport)
      in case transports r address of
           None \<Rightarrow>
             r\<lparr>transports := (transports r)(address \<mapsto> Map.empty(priority \<mapsto> transport)),
               transportCount := transportCount r + 1\<rparr>
         | Some priorities \<Rightarrow>
             r\<lparr>transports := (transports r)(address \<mapsto> priorities(priority \<mapsto> transport)),
               transportCount := (if priorities priority = None
                                  then transportCount r + 1 else transportCount r)\<rparr>)"

definition get :: "string \<Rightarrow> osiSockAddr_ptr \<Rightarrow> int16 \<Rightarrow> TransportRegistry \<Rightarrow> TransportRef option"
where
  "get type address priority r =
     (case transports r (addressKey address) of
        None \<Rightarrow> None
      | Some priorities \<Rightarrow> priorities priority)"

definition remove :: "TransportRef \<Rightarrow> TransportRegistry \<Rightarrow> TransportRef option \<times> TransportRegistry"
where
  "remove transport r =
     (let priority = getPriority transport;
          address = addressKey (getRemoteAddress transport)
      in case transports r address of
           None \<Rightarrow> (None, r)
         | Some priorities \<Rightarrow>
             (case priorities priority of
                None \<Rightarrow> (None, r)
              | Some retTransport \<Rightarrow>
                  (let erased = priorities(priority := None)
                   in (Some retTransport,
                       r\<lparr>transports := (if erased = Map.empty
                                         then (transports r)(address := None)
                                         else (transports r)(address \<mapsto> erased)),
                         transportCount := transportCount r - 1\<rparr>))))"

definition clearRegistry :: "TransportRegistry \<Rightarrow> TransportRegistry" where
  "clearRegistry r = r\<lparr>transports := Map.empty, transportCount := 0\<rparr>"

definition numberOfActiveTransports :: "TransportRegistry \<Rightarrow> int32" where
  "numberOfActiveTransports r = transportCount r"

text \<open>Calls on a registry, and a sequence of them run from left to right.\<close>

datatype registryCall = Put TransportRef | Remove TransportRef | Clear

fun call :: "registryCall \<Rightarrow> TransportRegistry \<Rightarrow> TransportRegistry" where
  "call (Put transport) r = put transport r"
| "call (Remove transport) r = snd (remove transport r)"
| "call Clear r = clearRegistry r"

definition calls :: "registryCall list \<Rightarrow> TransportRegistry \<Rightarrow> TransportRegistry" where
  "calls cs r = foldl (\<lambda>s c. call c s) r cs"

text \<open>The pairs of address and priority under which a transport is stored.\<close>

definition stored :: "TransportRegistry \<Rightarrow> (osiSockAddr \<times> int16) set" where
  "stored r = {(a, p). \<exists>priorities. transports r a = Some priorities \<and> priorities p \<noteq> None}"

section \<open>Construction and sample values\<close>

text \<open>
  The constructor of \<open>BlockingUDPTransport\<close>: both buffers have \<open>MAX_UDP_RECV\<close> bytes and
  the byte order of the host, no send or ignore addresses are set. \<open>_sendTo\<close> is not
  initialised by the constructor; it is only read after \<open>setRecipient\<close> has set it.
\<close>

definition BlockingUDPTransport :: "platform \<Rightarrow> osiSockAddr \<Rightarrow> Transport" where
  "BlockingUDPTransport pf unset =
     \<lparr>closed = False,
      sendAddresses = None,
      ignoredAddresses = None,
      sendToEnabled = False,
      sendTo = unset,
      receiveBuffer = newByteBuffer (MAX_UDP_RECV pf) (EPICS_BYTE_ORDER_BIG pf),
      sendBuffer = newByteBuffer (MAX_UDP_RECV pf) (EPICS_BYTE_ORDER_BIG pf),
      lastMessageStartPosition = 0,
      remoteTransportReceiveBufferSize = 0,
      remoteTransportSocketReceiveBufferSize = 0,
      remoteMinorRevision = 0,
      wire = [],
      console = []\<rparr>"

text \<open>The flags byte and the first four header bytes that \<open>startMessage\<close> writes.\<close>

definition byteOrderFlag :: "platform \<Rightarrow> int8" where
  "byteOrderFlag pf = (if EPICS_BYTE_ORDER_BIG pf then 0x80 else 0x00)"

definition headerBytes :: "platform \<Rightarrow> int8 \<Rightarrow> int8 list" where
  "headerBytes pf cmd = [CA_MAGIC, CA_VERSION pf, byteOrderFlag pf, cmd]"

text \<open>
  A little-endian host with 32-byte buffers, two peers, and a transport fresh from the
  constructor, for the statements below to be run on.
\<close>

definition littleHost :: platform where
  "littleHost = \<lparr>CA_VERSION = 0x51, EPICS_BYTE_ORDER_BIG = False, MAX_UDP_RECV = 32\<rparr>"

definition peerA :: osiSockAddr where
  "peerA = \<lparr>sin_family = 2, sin_port = 5076, s_addr = 0x0A000001\<rparr>"

definition peerB :: osiSockAddr where
  "peerB = \<lparr>sin_family = 2, sin_port = 5076, s_addr = 0x0A000002\<rparr>"

definition freshTransport :: Transport where
  "freshTransport = BlockingUDPTransport littleHost \<lparr>sin_family = 0, sin_port = 0, s_addr = 0\<rparr>"

text \<open>
  A datagram with one connection-validation frame (receive-buffer size 65536, socket
  receive-buffer size 131072, priority 1, little-endian), and a transport that has read
  its header.
\<close>

definition validationDatagram :: "int8 list" where
  "validationDatagram =
     [0xCA, 0x51, 0x00, 0x01, 0x0A, 0x00, 0x00, 0x00,
      0x00, 0x00, 0x01, 0x00, 0x00, 0x00, 0x02, 0x00, 0x01, 0x00]"

definition validationPending :: Transport where
  "validationPending =
     freshTransport\<lparr>receiveBuffer :=
       \<lparr>array = validationDatagram, position = 8, limit = 18, bigEndian = False\<rparr>\<rparr>"

text \<open>
  The server's response handler on the sample host, the transport as \<open>processRead\<close> hands
  it to \<open>processBuffer\<close> after a datagram has arrived, and sample datagrams: an echo
  frame; echo frames whose length field holds \<open>-1\<close> and \<open>-8\<close>; a connection validation
  followed by an echo; and a transport with an ignore list.
\<close>

definition serverHandler :: ResponseHandler where
  "serverHandler = ServerResponseHandler_handleResponse littleHost (ServerResponseHandler False)"

definition received :: "int8 list \<Rightarrow> Transport \<Rightarrow> Transport" where
  "received datagram t =
     (case recvfrom datagram (clear (receiveBuffer t)) of
        (bytesRead, b) \<Rightarrow> t\<lparr>receiveBuffer := flip (setPosition bytesRead b)\<rparr>)"

definition negativeLength :: "int8 list" where
  "negativeLength = [0xCA, 0x51, 0x00, 0x02, 0xFF, 0xFF, 0xFF, 0xFF]"

definition loopDatagram :: "int8 list" where
  "loopDatagram = [0xCA, 0x51, 0x00, 0x02, 0xF8, 0xFF, 0xFF, 0xFF]"

definition twoFrames :: "int8 list" where
  "twoFrames = validationDatagram @ [0xCA, 0x51, 0x00, 0x02, 0x00, 0x00, 0x00, 0x00]"

definition twoFramesBuffer :: ByteBuffer where
  "twoFramesBuffer =
     \<lparr>array = twoFrames @ replicate 6 0, position = 0, limit = 26, bigEndian = False\<rparr>"

definition validated :: Transport where
  "validated =
     freshTransport
       \<lparr>receiveBuffer := twoFramesBuffer\<lparr>position := 16\<rparr>,
        remoteTransportReceiveBufferSize := 65536,
        remoteTransportSocketReceiveBufferSize := 131072,
        remoteMinorRevision := 0x51\<rparr>"

definition echoDatagram :: "int8 list" where
  "echoDatagram = [0xCA, 0x51, 0x00, 0x02, 0x00, 0x00, 0x00, 0x00]"

definition filtering :: Transport where
  "filtering = freshTransport\<lparr>ignoredAddresses := Some [peerA, peerB]\<rparr>"

definition otherPortB :: osiSockAddr where
  "otherPortB = \<lparr>sin_family = 10, sin_port = 9999, s_addr = 0x0A000002\<rparr>"

definition peerC :: osiSockAddr where
  "peerC = \<lparr>sin_family = 2, sin_port = 5076, s_addr = 0x0A000003\<rparr>"

text \<open>
  For the statements on the registry: the key under which a transport is stored, and the
  registry being consistent, that is, finitely many entries, the counter equal to their
  number as a 32-bit value, and no address with an empty map of priorities.
\<close>

definition entryOf :: "TransportRef \<Rightarrow> osiSockAddr \<times> int16" where
  "entryOf transport = (addressKey (getRemoteAddress transport), getPriority transport)"

definition consistent :: "TransportRegistry \<Rightarrow> bool" where
  "consistent r \<longleftrightarrow>
     finite (stored r) \<and> transportCount r = word_of_nat (card (stored r))
     \<and> (\<forall>a. transports r a \<noteq> Some Map.empty)"

text \<open>
  Three transports to the same peer address, each with a remote-address object of its
  own: priorities 0 and 1, and a second one of priority 0.
\<close>

definition transportA0 :: TransportRef where
  "transportA0 = \<lparr>transportId = 1, getPriority = 0,
                   getRemoteAddress = \<lparr>place = 100, target = peerA\<rparr>\<rparr>"

definition transportA1 :: TransportRef where
  "transportA1 = \<lparr>transportId = 2, getPriority = 1,
                   getRemoteAddress = \<lparr>place = 200, target = peerA\<rparr>\<rparr>"

definition transportA0' :: TransportRef where
  "transportA0' = \<lparr>transportId = 3, getPriority = 0,
                    getRemoteAddress = \<lparr>place = 300, target = peerA\<rparr>\<rparr>"

text \<open>
  The period \<open>reschedule\<close> picks when the sequence id is \<open>i\<close> beacons ahead of that of the
  given emitter.
\<close>

definition delayAfter :: "BeaconEmitter \<Rightarrow> nat \<Rightarrow> real" where
  "delayAfter em i =
     (if sint (beaconCountLimit em) \<le> sint (beaconSequenceID em + word_of_nat i)
      then slowBeaconPeriod em else fastBeaconPeriod em)"

section \<open>Properties of the byte buffer and the framing\<close>

lemma int32_of_bytes_of_int32: "int32_of_bytes (bytes_of_int32 w) = w"
proof -
  have "bit (push_bit 8 (push_bit 8 (push_bit 8 (ucast (ucast (drop_bit 24 w) :: int8))
              OR ucast (ucast (drop_bit 16 w) :: int8))
              OR ucast (ucast (drop_bit 8 w) :: int8))
              OR ucast (ucast w :: int8) :: int32) n = bit w n" for n
  proof (cases "n < 32")
    case False
    then show ?thesis
      by (auto simp: bit_simps dest: bit_imp_le_length)
  next
    case True
    consider "n < 8" | "8 \<le> n" "n < 16" | "16 \<le> n" "n < 24" | "24 \<le> n"
      by linarith
    then show ?thesis
      by cases (use True in \<open>auto simp: bit_simps\<close>)
  qed
  then show ?thesis
    unfolding int32_of_bytes_def bytes_of_int32_def
    by (simp add: bit_eq_iff)
qed

lemma length_bytes_of_int32 [simp]: "length (bytes_of_int32 w) = 4"
  by (simp add: bytes_of_int32_def)

lemma length_ordered [simp]: "length (ordered b bs) = length bs"
  by (simp add: ordered_def)

lemma overwrite_append:
  assumes "p + length vs + length ws \<le> length xs"
  shows "take (p + length vs) (take p xs @ vs @ drop (p + length vs) xs) @ ws
           @ drop (p + length vs + length ws) (take p xs @ vs @ drop (p + length vs) xs)
         = take p xs @ (vs @ ws) @ drop (p + length (vs @ ws)) xs"
proof -
  have p: "length (take p xs) = p"
    using assms by simp
  have "take (p + length vs) (take p xs @ vs @ drop (p + length vs) xs) = take p xs @ vs"
    using p by (simp add: take_append)
  moreover have "drop (p + length vs + length ws) (take p xs @ vs @ drop (p + length vs) xs)
                 = drop (p + length (vs @ ws)) xs"
    using p by (simp add: drop_append add.commute add.left_commute)
  ultimately show ?thesis
    by simp
qed

lemma writeBytes_append:
  "p + length vs + length ws \<le> length (array b) \<Longrightarrow>
   writeBytes (writeBytes b p vs) (p + length vs) ws = writeBytes b p (vs @ ws)"
  using overwrite_append [of p vs ws "array b"] by (simp add: writeBytes_def)

lemma putBytes_append:
  assumes "putBytes vs b = Some b1"
  shows "putBytes ws b1 = putBytes (vs @ ws) b"
proof -
  from assms have f: "fits b (position b) (length vs)"
    and b1: "b1 = (writeBytes b (position b) vs)\<lparr>position := position b + length vs\<rparr>"
    by (auto simp: putBytes_def split: if_splits)
  have len: "length (array (writeBytes b (position b) vs)) = length (array b)"
    using f by (simp add: writeBytes_def fits_def)
  have fit: "fits b1 (position b1) (length ws) = fits b (position b) (length (vs @ ws))"
    using len by (simp add: b1 fits_def writeBytes_def add.assoc)
  show ?thesis
  proof (cases "fits b (position b) (length (vs @ ws))")
    case False
    then show ?thesis using fit by (simp add: putBytes_def)
  next
    case True
    then have "position b + length vs + length ws \<le> length (array b)"
      by (simp add: fits_def)
    from writeBytes_append [OF this] True fit show ?thesis
      by (simp add: putBytes_def b1 writeBytes_def add.assoc)
  qed
qed

lemma putByte_putBytes: "putByte v b = putBytes [v] b"
  by (simp add: putByte_def putBytes_def)

lemma seq_append:
  "seq (cs @ ds) t = (case seq cs t of Returns u t' \<Rightarrow> seq ds t' | Throws t' \<Rightarrow> Throws t')"
  by (induction cs arbitrary: t) (auto split: result.splits)

lemma putBytes_fits_prefix:
  "putBytes (vs @ ws) b = Some b' \<Longrightarrow> \<exists>b1. putBytes vs b = Some b1"
  by (auto simp: putBytes_def fits_def split: if_splits)

lemma onSendBuffer_Some:
  "f (sendBuffer t) = Some b \<Longrightarrow> onSendBuffer f t = Returns () (t\<lparr>sendBuffer := b\<rparr>)"
  by (simp add: onSendBuffer_def)

lemma seq_putBytes:
  "putBytes (concat chunks) (sendBuffer t) = Some b' \<Longrightarrow>
   seq (map (\<lambda>vs. onSendBuffer (putBytes vs)) chunks) t = Returns () (t\<lparr>sendBuffer := b'\<rparr>)"
proof (induction chunks arbitrary: t)
  case Nil
  then have "b' = sendBuffer t"
    by (auto simp: putBytes_def writeBytes_def split: if_splits)
  then show ?case by simp
next
  case (Cons c cs)
  from Cons.prems obtain b1 where b1: "putBytes c (sendBuffer t) = Some b1"
    using putBytes_fits_prefix [of c "concat cs"] by auto
  have "putBytes (concat cs) b1 = Some b'"
    using putBytes_append [OF b1, of "concat cs"] Cons.prems by simp
  then have "seq (map (\<lambda>vs. onSendBuffer (putBytes vs)) cs) (t\<lparr>sendBuffer := b1\<rparr>)
             = Returns () (t\<lparr>sendBuffer := b1, sendBuffer := b'\<rparr>)"
    using Cons.IH [of "t\<lparr>sendBuffer := b1\<rparr>"] by simp
  then show ?case
    using onSendBuffer_Some [of "putBytes c" t b1] b1 by simp
qed

lemma putInt_0: "putInt 0 b = putBytes [0, 0, 0, 0] b"
  by (simp add: putInt_def ordered_def bytes_of_int32_def)

lemma startMessage_seq:
  "startMessage pf cmd cap t =
     seq (map (\<lambda>vs. onSendBuffer (putBytes vs))
            [[CA_MAGIC], [CA_VERSION pf], [byteOrderFlag pf], [cmd], [0, 0, 0, 0]])
       (t\<lparr>lastMessageStartPosition := getPosition (sendBuffer t)\<rparr>)"
proof -
  have 1: "onSendBuffer (putByte v) = onSendBuffer (putBytes [v])" for v
    by (rule ext) (simp add: onSendBuffer_def putByte_putBytes)
  have 2: "onSendBuffer (putInt 0) = onSendBuffer (putBytes [0, 0, 0, 0])"
    by (rule ext) (simp add: onSendBuffer_def putInt_0)
  show ?thesis
    by (simp add: startMessage_def 1 2 byteOrderFlag_def)
qed

lemma message_written:
  assumes "putBytes (headerBytes pf cmd @ [0, 0, 0, 0] @ concat payload) (sendBuffer t) = Some b'"
  shows "seq (startMessage pf cmd cap # map (\<lambda>vs. onSendBuffer (putBytes vs)) payload) t
         = Returns () (t\<lparr>lastMessageStartPosition := position (sendBuffer t), sendBuffer := b'\<rparr>)"
proof -
  let ?put = "\<lambda>vs. onSendBuffer (putBytes vs)"
  let ?hdr = "[[CA_MAGIC], [CA_VERSION pf], [byteOrderFlag pf], [cmd], [0, 0, 0, 0]]"
  let ?t = "t\<lparr>lastMessageStartPosition := getPosition (sendBuffer t)\<rparr>"
  have c: "concat ?hdr = headerBytes pf cmd @ [0, 0, 0, 0]"
    by (simp add: headerBytes_def)
  obtain b1 where b1: "putBytes (concat ?hdr) (sendBuffer ?t) = Some b1"
    using putBytes_fits_prefix [of "headerBytes pf cmd @ [0, 0, 0, 0]" "concat payload" "sendBuffer t" b'] assms
    unfolding c by auto
  have "putBytes (concat payload) b1 = Some b'"
    using putBytes_append [OF b1, of "concat payload"] assms unfolding c by simp
  then have rest: "seq (map ?put payload) (?t\<lparr>sendBuffer := b1\<rparr>) = Returns () (?t\<lparr>sendBuffer := b'\<rparr>)"
    using seq_putBytes [of payload "?t\<lparr>sendBuffer := b1\<rparr>" b'] by simp
  have "startMessage pf cmd cap t = Returns () (?t\<lparr>sendBuffer := b1\<rparr>)"
    using seq_putBytes [OF b1] by (simp only: startMessage_seq)
  with rest show ?thesis
    by (simp add: getPosition_def)
qed

lemma nth_window:
  "take n (drop p xs) = ys \<Longrightarrow> i < n \<Longrightarrow> p + i < length xs \<Longrightarrow> xs ! (p + i) = ys ! i"
  by (metis nth_drop nth_take order_less_imp_le less_or_eq_imp_le nat_le_linear add_leD1 not_less)

lemma readHeader_at:
  assumes pos: "position b = p"
    and lim: "p + 8 \<le> limit b"
    and cap: "limit b \<le> length (array b)"
    and hdr: "take 8 (drop p (array b)) = [m, v, f, c] @ lenbytes"
  shows "readHeader b =
     (if m \<noteq> CA_MAGIC then BadFrame (b\<lparr>position := p + 2\<rparr>)
      else let b6 = b\<lparr>position := p + 8, bigEndian := sint f < 0\<rparr>;
               psize = (signed (int32_of_bytes (if sint f < 0 then lenbytes else rev lenbytes)) :: size_t);
               next = word_of_nat (p + 8) + psize
           in if word_of_nat (limit b) < next then BadFrame b6
              else Header \<lparr>magic = m, version = v, flags = f, command = c, payloadSize = psize,
                            headerEnd = p + 8, nextRequestPosition = next,
                            datagramEnd = limit b\<rparr> b6)"
proof -
  have n: "array b ! (p + i) = ([m, v, f, c] @ lenbytes) ! i" if "i < 8" for i
    using nth_window [OF hdr that] lim cap that by simp
  have n0: "array b ! p = m" using n [of 0] by simp
  have n1: "array b ! Suc p = v" using n [of 1] by simp
  have n2: "array b ! Suc (Suc p) = f" using n [of 2] by simp
  have n3: "array b ! Suc (Suc (Suc p)) = c" using n [of 3] by (simp add: eval_nat_numeral)
  have "take 4 (drop (p + 4) (array b)) = drop 4 (take 8 (drop p (array b)))"
    by (simp add: drop_take add.commute)
  then have len: "take 4 (drop (p + 4) (array b)) = lenbytes"
    by (simp add: hdr)
  have len': "take 4 (drop (4 + p) (array b)) = lenbytes"
    using len by (simp add: add.commute)
  have len'': "take 4 (drop (Suc (Suc (Suc (Suc p)))) (array b)) = lenbytes"
    using len by (simp add: eval_nat_numeral)
  show ?thesis
    using lim cap
    by (simp add: readHeader_def getByte_def getInt_def fits_def setEndianess_def pos
        readBytes_def ordered_def getPosition_def getLimit_def n0 n1 n2 n3 len len' len'' Let_def
        add.commute)
qed

lemma sint_of_nat_small: "k < 2 ^ 31 \<Longrightarrow> sint (word_of_nat k :: int32) = int k"
  by (simp add: signed_of_nat signed_take_bit_int_eq_self)

lemma ucast_of_nat_down: "(ucast (word_of_nat k :: size_t) :: int32) = word_of_nat k"
  by (rule bit_word_eqI) (auto simp: bit_simps)

lemma signed_of_nat_small: "n < 2 ^ 31 \<Longrightarrow> (signed (word_of_nat n :: int32) :: size_t) = word_of_nat n"
  by (simp add: signed_of_nat signed_take_bit_int_eq_self)

lemma size_t_less: "a < 2 ^ 31 \<Longrightarrow> b < 2 ^ 31 \<Longrightarrow> (word_of_nat a :: size_t) < word_of_nat b \<longleftrightarrow> a < b"
  by (simp add: word_less_nat_alt unat_of_nat)

lemma unat_size_t: "n < 2 ^ 31 \<Longrightarrow> unat (word_of_nat n :: size_t) = n"
  by (simp add: unat_of_nat)

text \<open>
  Claim C4. A message is started with \<open>startMessage\<close> at cursor \<open>p\<close> of the send buffer,
  its payload is written by any sequence of puts, and \<open>endMessage\<close> closes it. If header
  and payload fit into the send buffer, the buffer has the byte order of the host and
  fewer than \<open>2^31\<close> bytes, then the calls return, the four bytes at \<open>p + 4\<close> hold the
  number of payload bytes, and the receive path, given the bytes that would be sent and
  reading at \<open>p\<close>, decodes a header with the magic byte, the version, the same command
  and a payload size equal to the number of payload bytes written, ending at the cursor
  the sender had reached.
\<close>

theorem startMessage_endMessage_roundtrip:
  assumes room: "fits (sendBuffer t) p (8 + length (concat payload))"
    and start: "p = position (sendBuffer t)"
    and small: "length (array (sendBuffer t)) < 2 ^ 31"
    and native: "bigEndian (sendBuffer t) = EPICS_BYTE_ORDER_BIG pf"
    and rcap: "p + 8 + length (concat payload) \<le> length (array rb)"
    and rsmall: "length (array rb) < 2 ^ 31"
  shows "\<exists>t'. seq (startMessage pf cmd cap # map (\<lambda>vs. onSendBuffer (putBytes vs)) payload
                    @ [endMessage]) t = Returns () t'
           \<and> readBytes (sendBuffer t') (p + 4) 4
               = ordered (sendBuffer t') (bytes_of_int32 (word_of_nat (length (concat payload))))
           \<and> (case recvfrom (take (position (sendBuffer t')) (array (sendBuffer t'))) (clear rb) of
                (bytesRead, b) \<Rightarrow>
                  \<exists>fr b'. readHeader (setPosition p (flip (setPosition bytesRead b))) = Header fr b'
                    \<and> magic fr = CA_MAGIC \<and> version fr = CA_VERSION pf \<and> command fr = cmd
                    \<and> unat (payloadSize fr) = length (concat payload)
                    \<and> (ucast (payloadSize fr) :: int32) = word_of_nat (length (concat payload))
                    \<and> headerEnd fr = p + 8
                    \<and> unat (nextRequestPosition fr) = p + 8 + length (concat payload))"
proof -
  let ?sb = "sendBuffer t"
  let ?n = "length (concat payload)"
  let ?hdr = "headerBytes pf cmd"
  let ?A = "take p (array ?sb)"
  let ?D = "drop (p + 8 + ?n) (array ?sb)"
  let ?len = "ordered ?sb (bytes_of_int32 (word_of_nat ?n))"
  define b1 where "b1 = (writeBytes ?sb p (?hdr @ [0, 0, 0, 0] @ concat payload))\<lparr>position := p + 8 + ?n\<rparr>"
  have lenA: "length ?A = p"
    using room by (simp add: fits_def)
  have n31: "p + 8 + ?n < 2 ^ 31"
    using room small by (simp add: fits_def)
  have put: "putBytes (?hdr @ [0, 0, 0, 0] @ concat payload) ?sb = Some b1"
    using room by (simp add: putBytes_def fits_def b1_def start headerBytes_def add.commute)
  have arr1: "array b1 = ?A @ ?hdr @ [0, 0, 0, 0] @ concat payload @ ?D"
    by (simp add: b1_def writeBytes_def headerBytes_def eval_nat_numeral)
  define t1 where "t1 = t\<lparr>lastMessageStartPosition := p, sendBuffer := b1\<rparr>"
  have written: "seq (startMessage pf cmd cap # map (\<lambda>vs. onSendBuffer (putBytes vs)) payload) t
                 = Returns () t1"
    using message_written [OF put] by (simp add: t1_def start)
  define b2 where "b2 = writeBytes b1 (p + 4) ?len"
  have lim: "p + 8 + ?n \<le> limit ?sb" and cap: "p + 8 + ?n \<le> length (array ?sb)"
    using room by (simp_all add: fits_def)
  have lenb1: "length (array b1) = length (array ?sb)"
    using cap by (simp add: arr1 headerBytes_def)
  have limb1: "limit b1 = limit ?sb"
    by (simp add: b1_def writeBytes_def)
  have fit4: "fits b1 (p + 4) 4"
    using lim cap lenb1 limb1 by (simp add: fits_def)
  have "(word_of_int (int (p + 8 + ?n) - int p - int CA_MESSAGE_HEADER_SIZE) :: int32)
        = word_of_nat ?n"
    by (simp add: CA_MESSAGE_HEADER_SIZE_def)
  then have "endMessage t1 = Returns () (t1\<lparr>sendBuffer := b2\<rparr>)"
    using fit4
    by (simp add: endMessage_def onSendBuffer_def putIntAt_def t1_def getPosition_def b2_def
        b1_def ordered_def writeBytes_def)
  with written have run: "seq (startMessage pf cmd cap # map (\<lambda>vs. onSendBuffer (putBytes vs)) payload
                    @ [endMessage]) t = Returns () (t1\<lparr>sendBuffer := b2\<rparr>)"
    using seq_append [of "startMessage pf cmd cap # map (\<lambda>vs. onSendBuffer (putBytes vs)) payload"
        "[endMessage]" t]
    by simp
  have t4: "take (p + 4) (array b1) = ?A @ ?hdr"
    using lenA by (simp add: arr1 headerBytes_def)
  have d8: "drop (p + 4 + 4) (array b1) = concat payload @ ?D"
    using lenA by (simp add: arr1 headerBytes_def)
  have arr2: "array b2 = ?A @ ?hdr @ ?len @ concat payload @ ?D"
    using t4 d8 by (simp add: b2_def writeBytes_def)
  have pos2: "position b2 = p + 8 + ?n"
    by (simp add: b2_def writeBytes_def b1_def)
  have big2: "bigEndian b2 = bigEndian ?sb"
    by (simp add: b2_def writeBytes_def b1_def)
  have patched: "readBytes b2 (p + 4) 4 = ordered b2 (bytes_of_int32 (word_of_nat ?n))"
    using lenA by (simp add: readBytes_def arr2 headerBytes_def ordered_def big2)
  define dgm where "dgm = take (position b2) (array b2)"
  have ldg': "length (?A @ ?hdr @ ?len @ concat payload) = p + 8 + ?n"
    using lenA by (simp add: headerBytes_def)
  have "array b2 = (?A @ ?hdr @ ?len @ concat payload) @ ?D"
    by (simp add: arr2)
  then have dg: "dgm = ?A @ ?hdr @ ?len @ concat payload"
    unfolding dgm_def by (metis ldg' pos2 append_eq_conv_conj)
  have ldg: "length dgm = p + 8 + ?n"
    by (simp only: dg ldg')
  have flag: "sint (byteOrderFlag pf) < 0 \<longleftrightarrow> bigEndian ?sb"
    by (simp add: byteOrderFlag_def native)
  have val: "int32_of_bytes (if bigEndian ?sb then ?len else rev ?len) = word_of_nat ?n"
    by (simp add: ordered_def int32_of_bytes_of_int32)
  have rem: "unat (getRemaining (clear rb)) = length (array rb)"
    using rsmall by (simp add: getRemaining_def clear_def unat_of_nat)
  define b where "b = writeBytes (clear rb) 0 dgm"
  have rf: "recvfrom dgm (clear rb) = (p + 8 + ?n, b)"
    using rcap by (simp add: recvfrom_def rem ldg b_def Let_def)
  let ?rb = "setPosition p (flip (setPosition (p + 8 + ?n) b))"
  have arrb: "array b = (?A @ ?hdr @ ?len @ concat payload) @ drop (p + 8 + ?n) (array rb)"
    by (simp add: b_def writeBytes_def clear_def ldg) (simp add: dg)
  have "drop p (array b) = (?hdr @ ?len) @ concat payload @ drop (p + 8 + ?n) (array rb)"
    using lenA by (simp add: arrb)
  moreover have "length (?hdr @ ?len) = 8"
    by (simp add: headerBytes_def)
  ultimately have win: "take 8 (drop p (array ?rb)) = [CA_MAGIC, CA_VERSION pf, byteOrderFlag pf, cmd] @ ?len"
    by (simp add: setPosition_def flip_def headerBytes_def)
  have lenb: "length (array b) = length (array rb)"
    using rcap by (simp only: arrb length_append [of "?A @ ?hdr @ ?len @ concat payload"] ldg' length_drop)
  have rh: "readHeader ?rb =
        Header \<lparr>magic = CA_MAGIC, version = CA_VERSION pf, flags = byteOrderFlag pf, command = cmd,
                 payloadSize = word_of_nat ?n, headerEnd = p + 8,
                 nextRequestPosition = word_of_nat (p + 8 + ?n), datagramEnd = p + 8 + ?n\<rparr>
          (?rb\<lparr>position := p + 8, bigEndian := bigEndian ?sb\<rparr>)"
  proof -
    have posrb: "position ?rb = p" and limrb: "p + 8 \<le> limit ?rb"
      and caprb: "limit ?rb \<le> length (array ?rb)"
      using rcap by (simp_all add: setPosition_def flip_def lenb)
    have "limit ?rb = p + 8 + ?n"
      by (simp add: setPosition_def flip_def)
    moreover have "(word_of_nat p + 8 + word_of_nat ?n :: size_t) = word_of_nat (p + 8 + ?n)"
      by simp
    ultimately show ?thesis
      using n31
      by (simp only: readHeader_at [OF posrb limrb caprb win] flag val Let_def)
        (simp add: signed_of_nat_small setPosition_def flip_def)
  qed
  have nx: "unat (word_of_nat p + 8 + word_of_nat ?n :: size_t) = p + 8 + ?n"
    using unat_size_t [of "p + 8 + ?n"] n31 by simp
  show ?thesis
    using run patched rh n31 nx
    by (simp add: dgm_def [symmetric] rf ucast_of_nat_down unat_size_t)
qed

theorem startMessage_endMessage_roundtrip_witness:
  "fits (sendBuffer freshTransport) 0 (8 + length (concat [[0x10, 0x20], [0x30 :: int8]]))
   \<and> 0 = position (sendBuffer freshTransport)
   \<and> length (array (sendBuffer freshTransport)) < 2 ^ 31
   \<and> bigEndian (sendBuffer freshTransport) = EPICS_BYTE_ORDER_BIG littleHost
   \<and> 0 + 8 + length (concat [[0x10, 0x20], [0x30 :: int8]])
        \<le> length (array (receiveBuffer freshTransport))
   \<and> length (array (receiveBuffer freshTransport)) < 2 ^ 31
   \<and> (\<exists>t'. seq (startMessage littleHost 1 10
                   # map (\<lambda>vs. onSendBuffer (putBytes vs)) [[0x10, 0x20], [0x30]]
                   @ [endMessage]) freshTransport = Returns () t'
           \<and> readBytes (sendBuffer t') (0 + 4) 4
               = ordered (sendBuffer t') (bytes_of_int32 (word_of_nat 3))
           \<and> (case recvfrom (take (position (sendBuffer t')) (array (sendBuffer t')))
                       (clear (receiveBuffer freshTransport)) of
                (bytesRead, b) \<Rightarrow>
                  \<exists>fr b'. readHeader (setPosition 0 (flip (setPosition bytesRead b))) = Header fr b'
                    \<and> magic fr = CA_MAGIC \<and> version fr = CA_VERSION littleHost
                    \<and> command fr = 1 \<and> unat (payloadSize fr) = 3
                    \<and> (ucast (payloadSize fr) :: int32) = word_of_nat 3
                    \<and> headerEnd fr = 0 + 8
                    \<and> unat (nextRequestPosition fr) = 0 + 8 + 3))"
proof -
  have h1: "fits (sendBuffer freshTransport) 0 (8 + length (concat [[0x10, 0x20], [0x30 :: int8]]))"
    and h2: "0 = position (sendBuffer freshTransport)"
    and h3: "length (array (sendBuffer freshTransport)) < 2 ^ 31"
    and h4: "bigEndian (sendBuffer freshTransport) = EPICS_BYTE_ORDER_BIG littleHost"
    and h5: "0 + 8 + length (concat [[0x10, 0x20], [0x30 :: int8]])
             \<le> length (array (receiveBuffer freshTransport))"
    and h6: "length (array (receiveBuffer freshTransport)) < 2 ^ 31"
    by (simp_all add: freshTransport_def BlockingUDPTransport_def newByteBuffer_def
        littleHost_def fits_def)
  have "length (concat [[0x10, 0x20], [0x30 :: int8]]) = 3"
    by simp
  with startMessage_endMessage_roundtrip [OF h1 h2 h3 h4 h5 h6, of 1 10]
  have "\<exists>t'. seq (startMessage littleHost 1 10
                   # map (\<lambda>vs. onSendBuffer (putBytes vs)) [[0x10, 0x20], [0x30]]
                   @ [endMessage]) freshTransport = Returns () t'
           \<and> readBytes (sendBuffer t') (0 + 4) 4
               = ordered (sendBuffer t') (bytes_of_int32 (word_of_nat 3))
           \<and> (case recvfrom (take (position (sendBuffer t')) (array (sendBuffer t')))
                       (clear (receiveBuffer freshTransport)) of
                (bytesRead, b) \<Rightarrow>
                  \<exists>fr b'. readHeader (setPosition 0 (flip (setPosition bytesRead b))) = Header fr b'
                    \<and> magic fr = CA_MAGIC \<and> version fr = CA_VERSION littleHost
                    \<and> command fr = 1 \<and> unat (payloadSize fr) = 3
                    \<and> (ucast (payloadSize fr) :: int32) = word_of_nat 3
                    \<and> headerEnd fr = 0 + 8
                    \<and> unat (nextRequestPosition fr) = 0 + 8 + 3)"
    by (simp only:)
  with h1 h2 h3 h4 h5 h6 show ?thesis
    by (intro conjI)
qed

section \<open>Properties of the response handlers\<close>

lemma handlerTable_nth:
  assumes "n < 28"
  shows "ServerResponseHandler debug ! n =
     (if n = 0 then NoopResponse debug else if n = 1 then ConnectionValidationHandler debug
      else if n = 2 then EchoHandler debug else BadResponse debug)"
proof -
  consider "n = 0" | "n = 1" | "n = 2" | "3 \<le> n" by linarith
  then show ?thesis
  proof cases
    case 4
    then show ?thesis using assms by (simp add: ServerResponseHandler_def nth_append)
  qed (simp_all add: ServerResponseHandler_def)
qed

lemma handlerTable_slot:
  fixes cmd :: int8
  assumes "0 \<le> sint cmd" "sint cmd < 28"
  shows "ServerResponseHandler debug ! nat (sint cmd) =
     (if sint cmd = 0 then NoopResponse debug
      else if sint cmd = 1 then ConnectionValidationHandler debug
      else if sint cmd = 2 then EchoHandler debug else BadResponse debug)"
proof -
  have "nat (sint cmd) < 28" using assms by simp
  from handlerTable_nth [OF this] assms show ?thesis
    by (auto simp: nat_eq_iff)
qed

text \<open>
  Claim C8. For a command byte below 0 or from 28 on, the dispatcher of the table that the
  constructor builds prints one line of minor severity (and a dump of the payload) and
  returns: no handler of the table runs, the payload buffer keeps its cursor and no other
  field of the transport changes. For a command from 0 to 27 it delegates to the slot of
  that number: the no-op handler, the connection validation, the echo handler, or the
  shared bad-response handler in slots 3 to 27.
\<close>

theorem ServerResponseHandler_dispatch:
  "ServerResponseHandler_handleResponse pf (ServerResponseHandler debug)
       responseFrom ver cmd psize t =
     (if sint cmd < 0 \<or> 28 \<le> sint cmd
      then Returns ()
             (t\<lparr>console := console t
                  @ [errlogSevPrintf errlogMinor ''Invalid (or unsupported) command: %d.'' cmd,
                     hexDump (position (receiveBuffer t)) psize]\<rparr>)
      else handleResponse pf
             (if sint cmd = 0 then NoopResponse debug
              else if sint cmd = 1 then ConnectionValidationHandler debug
              else if sint cmd = 2 then EchoHandler debug
              else BadResponse debug)
             responseFrom ver cmd psize t)"
proof (cases "sint cmd < 0 \<or> 28 \<le> sint cmd")
  case True
  then show ?thesis
    by (simp add: ServerResponseHandler_handleResponse_def HANDLER_TABLE_LENGTH_def
        getPosition_def)
next
  case False
  then have "0 \<le> sint cmd" "sint cmd < 28" by auto
  from handlerTable_slot [OF this] False show ?thesis
    by (simp add: ServerResponseHandler_handleResponse_def HANDLER_TABLE_LENGTH_def)
qed

theorem ServerResponseHandler_dispatch_witness:
  "ServerResponseHandler_handleResponse littleHost (ServerResponseHandler False)
       peerA 0x51 99 0 freshTransport =
     Returns ()
       (freshTransport\<lparr>console :=
           [errlogSevPrintf errlogMinor ''Invalid (or unsupported) command: %d.'' 99,
            hexDump 0 0]\<rparr>)
   \<and> ServerResponseHandler_handleResponse littleHost (ServerResponseHandler False)
       peerA 0x51 0 0 freshTransport = Returns () freshTransport"
  using ServerResponseHandler_dispatch [of littleHost False peerA "0x51" 99 0 freshTransport]
    ServerResponseHandler_dispatch [of littleHost False peerA "0x51" 0 0 freshTransport]
  by (simp add: freshTransport_def BlockingUDPTransport_def newByteBuffer_def
      AbstractResponseHandler_handleResponse_def)

lemma unat_getRemaining:
  "position b \<le> limit b \<Longrightarrow> limit b < 2 ^ 31 \<Longrightarrow> unat (getRemaining b) = limit b - position b"
proof -
  assume a: "position b \<le> limit b" "limit b < 2 ^ 31"
  have "getRemaining b = word_of_nat (limit b - position b)"
    using a by (simp add: getRemaining_def)
  then show ?thesis
    using a unat_size_t [of "limit b - position b"] by simp
qed

lemma ordered_twice: "ordered b (ordered b bs) = bs"
  by (simp add: ordered_def)

lemma getInt_at:
  assumes "position b = p" "p + 4 \<le> limit b" "limit b \<le> length (array b)"
    and "take 4 (drop p (array b)) = ordered b (bytes_of_int32 v)"
  shows "getInt b = Some (v, b\<lparr>position := p + 4\<rparr>)"
  using assms
  by (simp add: getInt_def fits_def readBytes_def ordered_twice int32_of_bytes_of_int32)

text \<open>
  Claim C5. A frame with command 1 whose payload has at least 10 bytes inside the
  receive buffer, holding \<open>R\<close>, \<open>S\<close> and the two bytes \<open>P\<close> in the byte order of the buffer:
  handling it sets the remote receive-buffer size to \<open>R\<close>, the remote socket
  receive-buffer size to \<open>S\<close> and the remote minor revision to the version byte of the
  header. The cursor stops after \<open>S\<close>; \<open>P\<close> is not read and the state after the call does not
  depend on it.
\<close>

theorem ConnectionValidation_sets_remote:
  assumes pos: "position (receiveBuffer t) = p"
    and size: "10 \<le> sint psize"
    and inside: "p + nat (sint psize) \<le> limit (receiveBuffer t)"
    and cap: "limit (receiveBuffer t) \<le> length (array (receiveBuffer t))"
    and small: "length (array (receiveBuffer t)) < 2 ^ 31"
    and payload: "take 10 (drop p (array (receiveBuffer t)))
                  = ordered (receiveBuffer t) (bytes_of_int32 R)
                    @ ordered (receiveBuffer t) (bytes_of_int32 S) @ P"
  shows "ServerResponseHandler_handleResponse pf (ServerResponseHandler debug)
           responseFrom ver 1 psize t =
         Returns ()
           (t\<lparr>receiveBuffer := (receiveBuffer t)\<lparr>position := p + 8\<rparr>,
              remoteTransportReceiveBufferSize := R,
              remoteTransportSocketReceiveBufferSize := S,
              remoteMinorRevision := ver,
              console := console t @ (if debug then [hexDump p psize] else [])\<rparr>)"
proof -
  let ?rb = "receiveBuffer t"
  define dump where "dump = (if debug then [hexDump p psize] else [])"
  let ?t0 = "t\<lparr>console := console t @ dump\<rparr>"
  have lim: "p + 10 \<le> limit ?rb"
    using size inside by simp
  have a: "AbstractResponseHandler_handleResponse debug responseFrom ver 1 psize t = Returns () ?t0"
    by (simp add: AbstractResponseHandler_handleResponse_def getPosition_def pos dump_def)
  have e: "ensureData 10 ?t0 = Returns () ?t0"
    using unat_getRemaining [of ?rb] lim cap small by (simp add: ensureData_def pos)
  have "take 4 (take 10 (drop p (array ?rb))) = ordered ?rb (bytes_of_int32 R)"
    by (simp only: payload) simp
  then have w1: "take 4 (drop p (array ?rb)) = ordered ?rb (bytes_of_int32 R)"
    by simp
  have "take 4 (drop 4 (take 10 (drop p (array ?rb)))) = ordered ?rb (bytes_of_int32 S)"
    by (simp only: payload) simp
  then have w2: "take 4 (drop (p + 4) (array ?rb)) = ordered ?rb (bytes_of_int32 S)"
    by (simp add: drop_take add.commute)
  have g1: "getInt ?rb = Some (R, ?rb\<lparr>position := p + 4\<rparr>)"
    using getInt_at [OF pos _ cap w1] lim by simp
  have g2: "getInt (?rb\<lparr>position := p + 4\<rparr>) = Some (S, ?rb\<lparr>position := p + 8\<rparr>)"
    using getInt_at [of "?rb\<lparr>position := p + 4\<rparr>" "p + 4" S] lim cap w2
    by (simp add: ordered_def)
  have "ConnectionValidationHandler_handleResponse debug responseFrom ver 1 psize t =
         Returns ()
           (t\<lparr>receiveBuffer := (receiveBuffer t)\<lparr>position := p + 8\<rparr>,
              remoteTransportReceiveBufferSize := R,
              remoteTransportSocketReceiveBufferSize := S,
              remoteMinorRevision := ver,
              console := console t @ dump\<rparr>)"
    by (simp add: ConnectionValidationHandler_handleResponse_def a e withPayloadInt_def g1 g2
        setRemoteTransportReceiveBufferSize_def setRemoteTransportSocketReceiveBufferSize_def
        setRemoteMinorRevision_def del: One_nat_def)
  moreover have "ServerResponseHandler debug ! nat (sint (1 :: int8)) = ConnectionValidationHandler debug"
    using handlerTable_slot [of 1 debug] by simp
  ultimately show ?thesis
    by (simp add: ServerResponseHandler_handleResponse_def HANDLER_TABLE_LENGTH_def dump_def)
qed

theorem ConnectionValidation_sets_remote_witness:
  "position (receiveBuffer validationPending) = 8
   \<and> 10 \<le> sint (10 :: int32)
   \<and> 8 + nat (sint (10 :: int32)) \<le> limit (receiveBuffer validationPending)
   \<and> limit (receiveBuffer validationPending) \<le> length (array (receiveBuffer validationPending))
   \<and> length (array (receiveBuffer validationPending)) < 2 ^ 31
   \<and> take 10 (drop 8 (array (receiveBuffer validationPending)))
       = ordered (receiveBuffer validationPending) (bytes_of_int32 0x10000)
         @ ordered (receiveBuffer validationPending) (bytes_of_int32 0x20000) @ [0x01, 0x00]
   \<and> ServerResponseHandler_handleResponse littleHost (ServerResponseHandler False)
           peerA 0x51 1 10 validationPending =
         Returns ()
           (validationPending
              \<lparr>receiveBuffer := (receiveBuffer validationPending)\<lparr>position := 8 + 8\<rparr>,
               remoteTransportReceiveBufferSize := 65536,
               remoteTransportSocketReceiveBufferSize := 131072,
               remoteMinorRevision := 0x51,
               console := console validationPending @ (if False then [hexDump 8 10] else [])\<rparr>)"
proof -
  have h1: "position (receiveBuffer validationPending) = 8"
    and h2: "10 \<le> sint (10 :: int32)"
    and h3: "8 + nat (sint (10 :: int32)) \<le> limit (receiveBuffer validationPending)"
    and h4: "limit (receiveBuffer validationPending) \<le> length (array (receiveBuffer validationPending))"
    and h5: "length (array (receiveBuffer validationPending)) < 2 ^ 31"
    and h6: "take 10 (drop 8 (array (receiveBuffer validationPending)))
       = ordered (receiveBuffer validationPending) (bytes_of_int32 0x10000)
         @ ordered (receiveBuffer validationPending) (bytes_of_int32 0x20000) @ [0x01, 0x00]"
    by (simp_all add: validationPending_def validationDatagram_def ordered_def bytes_of_int32_def)
  from ConnectionValidation_sets_remote [OF h1 h2 h3 h4 h5 h6, of littleHost False peerA "0x51"]
    h1 h2 h3 h4 h5 h6
  show ?thesis
    by (intro conjI) simp_all
qed

lemma putBytes_on_clear:
  assumes "length bs \<le> length (array b)"
  shows "putBytes bs (clear b)
         = Some (b\<lparr>array := bs @ drop (length bs) (array b), position := length bs,
                   limit := length (array b)\<rparr>)"
  using assms by (simp add: putBytes_def fits_def clear_def writeBytes_def)

lemma echoHandler_result:
  assumes room: "8 \<le> length (array (sendBuffer t))"
  shows "EchoHandler_handleResponse pf debug A ver cmd psize t =
         Returns ()
           (t\<lparr>sendToEnabled := True,
              sendTo := A,
              sendBuffer := (sendBuffer t)
                \<lparr>array := headerBytes pf CMD_ECHO @ [0, 0, 0, 0] @ drop 8 (array (sendBuffer t)),
                 position := 0, limit := 8\<rparr>,
              lastMessageStartPosition := 0,
              wire := wire t @ [(A, headerBytes pf CMD_ECHO @ [0, 0, 0, 0])],
              console := console t
                @ (if debug then [hexDump (position (receiveBuffer t)) psize] else [])\<rparr>)"
proof -
  define dump where "dump = (if debug then [hexDump (position (receiveBuffer t)) psize] else [])"
  define t0 where "t0 = t\<lparr>console := console t @ dump\<rparr>"
  define t1 where "t1 = t0\<lparr>sendToEnabled := False, sendBuffer := clear (sendBuffer t0)\<rparr>"
  define b1 where "b1 = (sendBuffer t)\<lparr>array := headerBytes pf CMD_ECHO @ [0, 0, 0, 0] @ drop 8 (array (sendBuffer t)),
                   position := 8, limit := length (array (sendBuffer t))\<rparr>"
  have a: "AbstractResponseHandler_handleResponse debug A ver cmd psize t = Returns () t0"
    by (simp add: AbstractResponseHandler_handleResponse_def getPosition_def dump_def t0_def)
  have l8: "length (headerBytes pf CMD_ECHO @ [0, 0, 0, 0]) = 8"
    by (simp add: headerBytes_def)
  have "putBytes (headerBytes pf CMD_ECHO @ [0, 0, 0, 0]) (clear (sendBuffer t)) = Some b1"
    using putBytes_on_clear [of "headerBytes pf CMD_ECHO @ [0, 0, 0, 0]" "sendBuffer t"] room
    unfolding l8 b1_def by simp
  then have "putBytes (headerBytes pf CMD_ECHO @ [0, 0, 0, 0] @ concat []) (sendBuffer t1) = Some b1"
    by (simp add: t1_def t0_def)
  from message_written [OF this, of 0]
  have sm: "startMessage pf CMD_ECHO 0 t1
            = Returns () (t1\<lparr>lastMessageStartPosition := 0, sendBuffer := b1\<rparr>)"
    by (simp add: t1_def clear_def split: result.splits)
  define t2 where "t2 = t1\<lparr>lastMessageStartPosition := 0, sendBuffer := b1, sendTo := A, sendToEnabled := True\<rparr>"
  have snd: "EchoTransportSender_send pf A t1 = Returns () t2"
    by (simp add: EchoTransportSender_send_def sm setRecipient_def t2_def)
  have len: "length (array b1) = length (array (sendBuffer t))"
    using room by (simp add: b1_def headerBytes_def)
  have em: "endMessage t2 = Returns () t2"
  proof -
    have "writeBytes b1 4 [0, 0, 0, 0] = b1"
      using room by (simp add: writeBytes_def b1_def headerBytes_def)
    then show ?thesis
      using room len
      by (simp add: endMessage_def onSendBuffer_def putIntAt_def fits_def t2_def getPosition_def
          CA_MESSAGE_HEADER_SIZE_def ordered_def bytes_of_int32_def b1_def)
  qed
  have "enqueueSendRequest (EchoTransportSender_send pf A) t0
        = Returns () (sendto A (t2\<lparr>sendBuffer := flip (sendBuffer t2)\<rparr>))"
    using snd em
    by (simp add: enqueueSendRequest_def t1_def [symmetric] send_to_def) (simp add: t2_def)
  then have "EchoHandler_handleResponse pf debug A ver cmd psize t
        = Returns () (sendto A (t2\<lparr>sendBuffer := flip (sendBuffer t2)\<rparr>))"
    by (simp add: EchoHandler_handleResponse_def a)
  moreover have "sendto A (t2\<lparr>sendBuffer := flip (sendBuffer t2)\<rparr>) =
           (t\<lparr>sendToEnabled := True,
              sendTo := A,
              sendBuffer := (sendBuffer t)
                \<lparr>array := headerBytes pf CMD_ECHO @ [0, 0, 0, 0] @ drop 8 (array (sendBuffer t)),
                 position := 0, limit := 8\<rparr>,
              lastMessageStartPosition := 0,
              wire := wire t @ [(A, headerBytes pf CMD_ECHO @ [0, 0, 0, 0])],
              console := console t @ dump\<rparr>)"
    by (simp add: sendto_def t2_def t1_def t0_def flip_def b1_def getLimit_def headerBytes_def)
  ultimately show ?thesis
    by (simp add: dump_def)
qed

text \<open>
  Claim C6. Handling a frame with command 2 from address \<open>A\<close>, on a transport whose send
  buffer holds at least a header: exactly one datagram is handed to \<open>sendto\<close>, its target is
  \<open>A\<close>, and its bytes are one header with command \<open>CMD_ECHO\<close> and payload length zero.
\<close>

theorem Echo_reply:
  assumes room: "8 \<le> length (array (sendBuffer t))"
  shows "ServerResponseHandler_handleResponse pf (ServerResponseHandler debug)
           A ver 2 psize t =
         Returns ()
           (t\<lparr>sendToEnabled := True,
              sendTo := A,
              sendBuffer := (sendBuffer t)
                \<lparr>array := headerBytes pf CMD_ECHO @ [0, 0, 0, 0] @ drop 8 (array (sendBuffer t)),
                 position := 0, limit := 8\<rparr>,
              lastMessageStartPosition := 0,
              wire := wire t @ [(A, headerBytes pf CMD_ECHO @ [0, 0, 0, 0])],
              console := console t
                @ (if debug then [hexDump (position (receiveBuffer t)) psize] else [])\<rparr>)"
proof -
  have "sint (2 :: int8) = 2"
    by simp
  moreover have "ServerResponseHandler debug ! nat (sint (2 :: int8)) = EchoHandler debug"
    using handlerTable_slot [of 2 debug] by simp
  ultimately show ?thesis
    using echoHandler_result [OF room, of pf debug A ver 2 psize]
    by (simp add: ServerResponseHandler_handleResponse_def HANDLER_TABLE_LENGTH_def)
qed

theorem Echo_reply_witness:
  "8 \<le> length (array (sendBuffer freshTransport))
   \<and> (\<exists>t'. ServerResponseHandler_handleResponse littleHost (ServerResponseHandler False)
               peerA 0x51 2 0 freshTransport = Returns () t'
            \<and> wire t' = [(peerA, [0xCA, 0x51, 0x00, 0x02, 0, 0, 0, 0])]
            \<and> sendTo t' = peerA)"
proof -
  have h: "8 \<le> length (array (sendBuffer freshTransport))"
    by (simp add: freshTransport_def BlockingUDPTransport_def newByteBuffer_def littleHost_def)
  have "wire freshTransport = []"
    by (simp add: freshTransport_def BlockingUDPTransport_def)
  with Echo_reply [OF h, of littleHost False peerA "0x51" 0] h show ?thesis
    by (simp add: headerBytes_def CA_MAGIC_def CMD_ECHO_def byteOrderFlag_def littleHost_def)
qed

section \<open>Properties of the receive path\<close>

lemma sint_getRemaining:
  assumes "position b \<le> limit b" "limit b < 2 ^ 31"
  shows "sint (ucast (getRemaining b) :: int32) = int (limit b) - int (position b)"
proof -
  have "getRemaining b = word_of_nat (limit b - position b)"
    using assms by (simp add: getRemaining_def)
  then have "sint (ucast (getRemaining b) :: int32) = int (limit b - position b)"
    using sint_of_nat_small [of "limit b - position b"] assms
    by (simp only: ucast_of_nat_down)
  then show ?thesis
    using assms by simp
qed

text \<open>
  One round of \<open>processBuffer\<close> on a buffer that holds eight header bytes with the right
  magic byte at the cursor, whatever the length field says.
\<close>

lemma processBuffer_frame:
  assumes rb: "receiveBuffer t = b"
    and pos: "position b = p"
    and lim: "p + 8 \<le> limit b"
    and cap: "limit b \<le> length (array b)"
    and small: "length (array b) < 2 ^ 31"
    and hdr: "take 8 (drop p (array b)) = [CA_MAGIC, v, f, c] @ lenbytes"
    and psize: "psize = (signed (int32_of_bytes (if sint f < 0 then lenbytes else rev lenbytes)) :: size_t)"
    and fr: "fr = \<lparr>magic = CA_MAGIC, version = v, flags = f, command = c, payloadSize = psize,
                 headerEnd = p + 8, nextRequestPosition = word_of_nat (p + 8) + psize,
                 datagramEnd = limit b\<rparr>"
    and b6: "b6 = b\<lparr>position := p + 8, bigEndian := sint f < 0\<rparr>"
  shows "processBuffer (Suc k) h A t =
     (if word_of_nat (limit b) < nextRequestPosition fr
      then ([], Some (Returns False (t\<lparr>receiveBuffer := b6\<rparr>)))
      else case h A v c (ucast psize) (t\<lparr>receiveBuffer := b6\<rparr>) of
             Throws t' \<Rightarrow> ([fr], Some (Throws t'))
           | Returns u t' \<Rightarrow>
               (case processBuffer k h A
                       (t'\<lparr>receiveBuffer :=
                            setPosition (unat (nextRequestPosition fr)) (receiveBuffer t')\<rparr>) of
                  (frs, r) \<Rightarrow> (fr # frs, r)))"
proof -
  have "int CA_MESSAGE_HEADER_SIZE \<le> sint (ucast (getRemaining (receiveBuffer t)) :: int32)"
    using sint_getRemaining [of b] lim cap small pos
    by (simp add: rb CA_MESSAGE_HEADER_SIZE_def)
  moreover note readHeader_at [OF pos lim cap hdr]
  ultimately show ?thesis
    by (simp add: rb fr b6 psize Let_def split: result.splits prod.splits)
qed

lemma processBuffer_bad_magic:
  assumes rb: "receiveBuffer t = b"
    and pos: "position b = p"
    and lim: "p + 8 \<le> limit b"
    and cap: "limit b \<le> length (array b)"
    and small: "length (array b) < 2 ^ 31"
    and bad: "array b ! p \<noteq> CA_MAGIC"
  shows "processBuffer (Suc k) h A t = ([], Some (Returns False (t\<lparr>receiveBuffer := b\<lparr>position := p + 2\<rparr>\<rparr>)))"
proof -
  have "int CA_MESSAGE_HEADER_SIZE \<le> sint (ucast (getRemaining (receiveBuffer t)) :: int32)"
    using sint_getRemaining [of b] lim cap small pos
    by (simp add: rb CA_MESSAGE_HEADER_SIZE_def)
  moreover have "readHeader b = BadFrame (b\<lparr>position := p + 2\<rparr>)"
    using lim cap bad by (simp add: readHeader_def getByte_def fits_def pos)
  ultimately show ?thesis
    by (simp add: rb)
qed

lemma processBuffer_end:
  assumes "position (receiveBuffer t) \<le> limit (receiveBuffer t)" "limit (receiveBuffer t) < 2 ^ 31"
    and "limit (receiveBuffer t) < position (receiveBuffer t) + 8"
  shows "processBuffer (Suc k) h A t = ([], Some (Returns True t))"
  using sint_getRemaining [of "receiveBuffer t"] assms
  by (simp add: CA_MESSAGE_HEADER_SIZE_def)

text \<open>
  Claim C7. A frame with the magic byte, whose length field holds \<open>n\<close> and whose \<open>n\<close>
  payload bytes lie inside the datagram, is handed to the handler; when the handler
  returns, in whatever state and with the cursor of the receive buffer wherever it left
  it, the loop goes on with the cursor at the end of the header plus \<open>n\<close>: the rest of the
  datagram is decoded from there.
\<close>

theorem processBuffer_next_frame:
  assumes rb: "receiveBuffer t = b"
    and pos: "position b = p"
    and lim: "p + 8 \<le> limit b"
    and cap: "limit b \<le> length (array b)"
    and small: "length (array b) < 2 ^ 31"
    and hdr: "take 8 (drop p (array b)) = [CA_MAGIC, v, f, c] @ lenbytes"
    and len: "int32_of_bytes (if sint f < 0 then lenbytes else rev lenbytes) = word_of_nat n"
    and inside: "p + 8 + n \<le> limit b"
    and handled: "h A v c (word_of_nat n) (t\<lparr>receiveBuffer := b\<lparr>position := p + 8, bigEndian := sint f < 0\<rparr>\<rparr>)
                  = Returns u t'"
  shows "processBuffer (Suc k) h A t =
     (case processBuffer k h A (t'\<lparr>receiveBuffer := (receiveBuffer t')\<lparr>position := p + 8 + n\<rparr>\<rparr>) of
        (frs, r) \<Rightarrow>
          (\<lparr>magic = CA_MAGIC, version = v, flags = f, command = c, payloadSize = word_of_nat n,
            headerEnd = p + 8, nextRequestPosition = word_of_nat (p + 8 + n),
            datagramEnd = limit b\<rparr> # frs, r))"
proof -
  have n31: "p + 8 + n < 2 ^ 31"
    using inside cap small by simp
  then have n: "n < 2 ^ 31"
    by simp
  have ps: "(signed (int32_of_bytes (if sint f < 0 then lenbytes else rev lenbytes)) :: size_t)
            = word_of_nat n"
    using signed_of_nat_small [OF n] by (simp only: len)
  have nx: "(word_of_nat (p + 8) + word_of_nat n :: size_t) = word_of_nat (p + 8 + n)"
    by simp
  have ok: "\<not> (word_of_nat (limit b) :: size_t) < word_of_nat (p + 8 + n)"
    using size_t_less [of "limit b" "p + 8 + n"] n31 inside cap small by simp
  have un: "unat (word_of_nat (p + 8 + n) :: size_t) = p + 8 + n"
    using unat_size_t [OF n31] .
  have uc: "(ucast (word_of_nat n :: size_t) :: int32) = word_of_nat n"
    by (rule ucast_of_nat_down)
  show ?thesis
    by (subst processBuffer_frame [OF rb pos lim cap small hdr ps [symmetric] refl refl])
      (simp add: nx ok un uc handled setPosition_def del: of_nat_add)
qed

lemmas run_defs =
  serverHandler_def received_def recvfrom_def freshTransport_def BlockingUDPTransport_def
  newByteBuffer_def littleHost_def clear_def flip_def getRemaining_def writeBytes_def Let_def
  setPosition_def readHeader_def getByte_def getInt_def fits_def CA_MAGIC_def setEndianess_def
  readBytes_def ordered_def int32_of_bytes_def getPosition_def getLimit_def
  CA_MESSAGE_HEADER_SIZE_def ServerResponseHandler_handleResponse_def ServerResponseHandler_def
  HANDLER_TABLE_LENGTH_def EchoHandler_handleResponse_def AbstractResponseHandler_handleResponse_def
  enqueueSendRequest_def EchoTransportSender_send_def startMessage_def onSendBuffer_def
  putByte_def putInt_def putBytes_def bytes_of_int32_def setRecipient_def endMessage_def
  putIntAt_def send_to_def send_all_def sendto_def CMD_ECHO_def
  ConnectionValidationHandler_handleResponse_def ensureData_def withPayloadInt_def
  setRemoteTransportReceiveBufferSize_def setRemoteTransportSocketReceiveBufferSize_def
  setRemoteMinorRevision_def processRead_def ignore_def close_def

theorem processBuffer_next_frame_witness:
  "receiveBuffer (received twoFrames freshTransport) = twoFramesBuffer
   \<and> position twoFramesBuffer = 0
   \<and> 0 + 8 \<le> limit twoFramesBuffer
   \<and> limit twoFramesBuffer \<le> length (array twoFramesBuffer)
   \<and> length (array twoFramesBuffer) < 2 ^ 31
   \<and> take 8 (drop 0 (array twoFramesBuffer)) = [CA_MAGIC, 0x51, 0x00, 0x01] @ [0x0A, 0x00, 0x00, 0x00]
   \<and> int32_of_bytes (if sint (0x00 :: int8) < 0 then [0x0A, 0x00, 0x00, 0x00]
                       else rev [0x0A, 0x00, 0x00, 0x00]) = word_of_nat 10
   \<and> 0 + 8 + 10 \<le> limit twoFramesBuffer
   \<and> serverHandler peerA 0x51 0x01 (word_of_nat 10)
         ((received twoFrames freshTransport)
            \<lparr>receiveBuffer := twoFramesBuffer\<lparr>position := 0 + 8, bigEndian := sint (0x00 :: int8) < 0\<rparr>\<rparr>)
       = Returns () validated
   \<and> position (receiveBuffer validated) = 16
   \<and> processBuffer (Suc (Suc (Suc 0))) serverHandler peerA (received twoFrames freshTransport) =
       (case processBuffer (Suc (Suc 0)) serverHandler peerA
               (validated\<lparr>receiveBuffer := (receiveBuffer validated)\<lparr>position := 0 + 8 + 10\<rparr>\<rparr>) of
          (frs, r) \<Rightarrow>
            (\<lparr>magic = CA_MAGIC, version = 0x51, flags = 0x00, command = 0x01,
              payloadSize = word_of_nat 10, headerEnd = 0 + 8,
              nextRequestPosition = word_of_nat (0 + 8 + 10),
              datagramEnd = limit twoFramesBuffer\<rparr> # frs, r))
   \<and> map (\<lambda>fr. (command fr, headerEnd fr))
         (fst (processBuffer (Suc (Suc (Suc 0))) serverHandler peerA (received twoFrames freshTransport)))
       = [(1, 8), (2, 26)]"
proof -
  have h1: "receiveBuffer (received twoFrames freshTransport) = twoFramesBuffer"
    and h2: "position twoFramesBuffer = 0"
    and h3: "0 + 8 \<le> limit twoFramesBuffer"
    and h4: "limit twoFramesBuffer \<le> length (array twoFramesBuffer)"
    and h5: "length (array twoFramesBuffer) < 2 ^ 31"
    and h6: "take 8 (drop 0 (array twoFramesBuffer)) = [CA_MAGIC, 0x51, 0x00, 0x01] @ [0x0A, 0x00, 0x00, 0x00]"
    and h7: "int32_of_bytes (if sint (0x00 :: int8) < 0 then [0x0A, 0x00, 0x00, 0x00]
                       else rev [0x0A, 0x00, 0x00, 0x00]) = word_of_nat 10"
    and h8: "0 + 8 + 10 \<le> limit twoFramesBuffer"
    by (simp_all add: run_defs twoFramesBuffer_def twoFrames_def validationDatagram_def)
  have h9: "serverHandler peerA 0x51 0x01 (word_of_nat 10)
         ((received twoFrames freshTransport)
            \<lparr>receiveBuffer := twoFramesBuffer\<lparr>position := 0 + 8, bigEndian := sint (0x00 :: int8) < 0\<rparr>\<rparr>)
       = Returns () validated"
    by (simp add: run_defs twoFramesBuffer_def twoFrames_def validationDatagram_def validated_def)
  have h10: "position (receiveBuffer validated) = 16"
    by (simp add: validated_def)
  note step = processBuffer_next_frame [where h = serverHandler and A = peerA and k = "Suc (Suc 0)" and u = "()"
      and t' = validated, OF h1 h2 h3 h4 h5 h6 h7 h8 h9]
  have rest: "map (\<lambda>fr. (command fr, headerEnd fr))
         (fst (processBuffer (Suc (Suc 0)) serverHandler peerA
               (validated\<lparr>receiveBuffer := (receiveBuffer validated)\<lparr>position := 0 + 8 + 10\<rparr>\<rparr>)))
       = [(2, 26)]"
    by (simp add: run_defs twoFramesBuffer_def twoFrames_def validationDatagram_def validated_def)
  have all: "map (\<lambda>fr. (command fr, headerEnd fr))
         (fst (processBuffer (Suc (Suc (Suc 0))) serverHandler peerA (received twoFrames freshTransport)))
       = [(1, 8), (2, 26)]"
  proof -
    have f: "fst (case q of (frs, r) \<Rightarrow> (x # frs, r)) = x # fst q"
      for q :: "frame list \<times> bool result option" and x
      by (cases q) simp
    show ?thesis
      by (simp only: step f list.map rest) simp
  qed
  from h1 h2 h3 h4 h5 h6 h7 h8 h9 h10 step all show ?thesis
    by (intro conjI)
qed

text \<open>
  Claim C1. The handler is to be called only for a frame with the magic byte whose
  payload, as long as the length field says, ends inside the datagram. The datagram
  \<open>CA 51 00 02 FF FF FF FF\<close> has a header and no payload, and a length field of
  \<open>0xFFFFFFFF\<close>. \<open>getInt\<close> reads it as \<open>-1\<close>, the assignment to \<open>size_t\<close> sign-extends it,
  and the sum with the cursor wraps around to 7, which passes the payload size check: the
  echo handler runs, a reply goes out, and the cursor is set back to 7.
\<close>

theorem processBuffer_negative_length:
  "processRead (Suc (Suc 0)) serverHandler negativeLength peerA freshTransport =
     ([\<lparr>magic = 0xCA, version = 0x51, flags = 0x00, command = 0x02,
        payloadSize = 0xFFFFFFFFFFFFFFFF, headerEnd = 8, nextRequestPosition = 7,
        datagramEnd = 8\<rparr>],
      Some (freshTransport
        \<lparr>sendToEnabled := True,
         sendTo := peerA,
         receiveBuffer := \<lparr>array = negativeLength @ replicate 24 0, position = 7, limit = 8,
                            bigEndian = False\<rparr>,
         sendBuffer := \<lparr>array = [0xCA, 0x51, 0x00, 0x02, 0, 0, 0, 0] @ replicate 24 0,
                         position = 0, limit = 8, bigEndian = False\<rparr>,
         wire := [(peerA, [0xCA, 0x51, 0x00, 0x02, 0, 0, 0, 0])]\<rparr>))"
  by (simp add: run_defs negativeLength_def)

text \<open>
  With the length field \<open>-8\<close> the cursor is set back to the start of the frame: every round
  calls the handler for the same frame and the loop never ends, whatever number of rounds
  it is given.
\<close>

lemma processBuffer_never_returns:
  assumes "array (receiveBuffer t) = loopDatagram @ rest"
    and "position (receiveBuffer t) = 0"
    and "limit (receiveBuffer t) = 8"
    and "length rest < 2 ^ 31 - 8"
    and "8 \<le> length (array (sendBuffer t))"
  shows "processBuffer k (ServerResponseHandler_handleResponse pf (ServerResponseHandler debug)) A t
         = (replicate k
              \<lparr>magic = 0xCA, version = 0x51, flags = 0x00, command = 0x02,
               payloadSize = - 8, headerEnd = 8, nextRequestPosition = 0, datagramEnd = 8\<rparr>,
            None)"
  using assms
proof (induction k arbitrary: t)
  case 0
  show ?case by simp
next
  case (Suc k)
  let ?h = "ServerResponseHandler_handleResponse pf (ServerResponseHandler debug)"
  let ?b = "receiveBuffer t"
  let ?b6 = "?b\<lparr>position := 0 + 8, bigEndian := sint (0x00 :: int8) < 0\<rparr>"
  let ?fr = "\<lparr>magic = CA_MAGIC, version = 0x51, flags = 0x00, command = 0x02,
               payloadSize = (- 8 :: size_t), headerEnd = 0 + 8,
               nextRequestPosition = word_of_nat (0 + 8) + (- 8 :: size_t), datagramEnd = limit ?b\<rparr>"
  have hdr: "take 8 (drop 0 (array ?b)) = [CA_MAGIC, 0x51, 0x00, 0x02] @ [0xF8, 0xFF, 0xFF, 0xFF]"
    by (simp add: Suc.prems loopDatagram_def CA_MAGIC_def)
  have ps: "(- 8 :: size_t) = signed (int32_of_bytes (if sint (0x00 :: int8) < 0
                 then [0xF8, 0xFF, 0xFF, 0xFF] else rev [0xF8, 0xFF, 0xFF, 0xFF]))"
    by (simp add: int32_of_bytes_def)
  have lim: "0 + 8 \<le> limit ?b" and cap: "limit ?b \<le> length (array ?b)"
    and small: "length (array ?b) < 2 ^ 31"
    using Suc.prems by (simp_all add: loopDatagram_def)
  note step = processBuffer_frame [where h = ?h and A = A and k = k and t = t,
      OF refl Suc.prems(2) lim cap small hdr ps refl refl]
  have room: "8 \<le> length (array (sendBuffer (t\<lparr>receiveBuffer := ?b6\<rparr>)))"
    using Suc.prems by simp
  have slot: "ServerResponseHandler debug ! nat (sint (2 :: int8)) = EchoHandler debug"
    using handlerTable_slot [of 2 debug] by simp
  have echo: "?h A 0x51 0x02 (ucast (- 8 :: size_t)) (t\<lparr>receiveBuffer := ?b6\<rparr>)
              = EchoHandler_handleResponse pf debug A 0x51 0x02 (ucast (- 8 :: size_t))
                  (t\<lparr>receiveBuffer := ?b6\<rparr>)"
    using slot by (simp add: ServerResponseHandler_handleResponse_def HANDLER_TABLE_LENGTH_def)
  note sent = echoHandler_result [OF room, of pf debug A "0x51" "0x02" "ucast (- 8 :: size_t)"]
  let ?t' = "t\<lparr>receiveBuffer := ?b6\<rparr>
       \<lparr>sendToEnabled := True, sendTo := A,
        sendBuffer := (sendBuffer t)
          \<lparr>array := headerBytes pf CMD_ECHO @ [0, 0, 0, 0] @ drop 8 (array (sendBuffer t)),
           position := 0, limit := 8\<rparr>,
        lastMessageStartPosition := 0,
        wire := wire t @ [(A, headerBytes pf CMD_ECHO @ [0, 0, 0, 0])],
        console := console t @ (if debug then [hexDump 8 (ucast (- 8 :: size_t))] else [])\<rparr>"
  have h: "?h A 0x51 0x02 (ucast (- 8 :: size_t)) (t\<lparr>receiveBuffer := ?b6\<rparr>) = Returns () ?t'"
    using sent by (simp only: echo) simp
  let ?t'' = "?t'\<lparr>receiveBuffer := setPosition (unat (nextRequestPosition ?fr)) (receiveBuffer ?t')\<rparr>"
  have ih: "processBuffer k ?h A ?t''
        = (replicate k
              \<lparr>magic = 0xCA, version = 0x51, flags = 0x00, command = 0x02,
               payloadSize = - 8, headerEnd = 8, nextRequestPosition = 0, datagramEnd = 8\<rparr>,
            None)"
    using Suc.prems
    by (intro Suc.IH) (simp_all add: setPosition_def headerBytes_def)
  have "\<not> (word_of_nat (limit ?b) :: size_t) < nextRequestPosition ?fr"
    by (simp add: Suc.prems)
  then show ?case
    by (simp only: step h ih if_False result.case prod.case)
       (simp add: CA_MAGIC_def Suc.prems)
qed

lemma processBuffer_never_returns_example:
  "processBuffer k serverHandler peerA (received loopDatagram freshTransport)
   = (replicate k
        \<lparr>magic = 0xCA, version = 0x51, flags = 0x00, command = 0x02,
         payloadSize = - 8, headerEnd = 8, nextRequestPosition = 0, datagramEnd = 8\<rparr>,
      None)"
  unfolding serverHandler_def
  by (rule processBuffer_never_returns [where rest = "replicate 24 0"])
    (simp_all add: run_defs loopDatagram_def)

text \<open>
  What the checks in \<open>processBuffer\<close> do give for every frame the handler is called for:
  the magic byte, and \<open>nextRequestPosition\<close>, the sum of cursor and payload size in
  \<open>size_t\<close>, not beyond the limit.
\<close>

lemma readHeader_Header:
  assumes "readHeader b = Header fr b'"
  shows "magic fr = CA_MAGIC"
    and "nextRequestPosition fr = word_of_nat (headerEnd fr) + payloadSize fr"
    and "nextRequestPosition fr \<le> word_of_nat (datagramEnd fr)"
  using assms
  by (auto simp: readHeader_def Let_def not_less split: option.splits if_splits prod.splits)

lemma processBuffer_dispatched:
  assumes "fr \<in> set (fst (processBuffer k h A t))"
  shows "magic fr = CA_MAGIC
         \<and> nextRequestPosition fr = word_of_nat (headerEnd fr) + payloadSize fr
         \<and> nextRequestPosition fr \<le> word_of_nat (datagramEnd fr)"
  using assms
proof (induction k arbitrary: t)
  case 0
  then show ?case by simp
next
  case (Suc k)
  show ?case
  proof (cases "int CA_MESSAGE_HEADER_SIZE \<le> sint (ucast (getRemaining (receiveBuffer t)) :: int32)")
    case False
    with Suc.prems show ?thesis by simp
  next
    case True
    show ?thesis
    proof (cases "readHeader (receiveBuffer t)")
      case (Header fr0 b)
      note hd = readHeader_Header [OF Header]
      show ?thesis
      proof (cases "h A (version fr0) (command fr0) (ucast (payloadSize fr0)) (t\<lparr>receiveBuffer := b\<rparr>)")
        case (Throws t')
        with Suc.prems True Header hd show ?thesis by simp
      next
        case (Returns u t')
        let ?t = "t'\<lparr>receiveBuffer := setPosition (unat (nextRequestPosition fr0)) (receiveBuffer t')\<rparr>"
        from Suc.prems True Header Returns
        have "fr = fr0 \<or> fr \<in> set (fst (processBuffer k h A ?t))"
          by (auto split: prod.splits)
        then show ?thesis
          using hd Suc.IH [of ?t] by auto
      qed
    qed (use Suc.prems True in simp_all)
  qed
qed

lemma ignoredSource_iff: "ignoredSource addresses A \<longleftrightarrow> s_addr A \<in> s_addr ` set addresses"
  by (induction addresses) auto

text \<open>
  Claim C9. A datagram is ignored exactly when an ignore list is set and the IPv4 address
  of its source equals the IPv4 address of an entry; the port and the address family, of
  the source and of the entries, play no part. An ignored datagram only fills the receive
  buffer: \<open>processBuffer\<close> is not called, no handler runs and nothing else changes. Every
  datagram that arrives and is not ignored, because no list is set or because the IPv4
  address of its source is on none of the entries, is passed to \<open>processBuffer\<close>.
\<close>

theorem ignore_filter:
  "(ignore t A \<longleftrightarrow>
      (\<exists>addresses. ignoredAddresses t = Some addresses \<and> s_addr A \<in> s_addr ` set addresses))
   \<and> ignore t (A\<lparr>sin_family := family, sin_port := port\<rparr>) = ignore t A
   \<and> (ignore t A \<longrightarrow>
        processRead k h datagram A t =
          ([], Some (t\<lparr>receiveBuffer := snd (recvfrom datagram (clear (receiveBuffer t)))\<rparr>)))
   \<and> (ignoredAddresses t = None \<longrightarrow> 0 < fst (recvfrom datagram (clear (receiveBuffer t))) \<longrightarrow>
        processRead k h datagram A t =
          (case processBuffer k h A (received datagram t) of
             (frs, None) \<Rightarrow> (frs, None)
           | (frs, Some (Returns u t')) \<Rightarrow> (frs, Some t')
           | (frs, Some (Throws t')) \<Rightarrow> (frs, Some (close t'))))
   \<and> (\<not> ignore t A \<longrightarrow> 0 < fst (recvfrom datagram (clear (receiveBuffer t))) \<longrightarrow>
        processRead k h datagram A t =
          (case processBuffer k h A (received datagram t) of
             (frs, None) \<Rightarrow> (frs, None)
           | (frs, Some (Returns u t')) \<Rightarrow> (frs, Some t')
           | (frs, Some (Throws t')) \<Rightarrow> (frs, Some (close t'))))"
proof (intro conjI impI)
  show iff: "ignore t A \<longleftrightarrow>
      (\<exists>addresses. ignoredAddresses t = Some addresses \<and> s_addr A \<in> s_addr ` set addresses)"
    by (simp add: ignore_def ignoredSource_iff split: option.splits)
  show "ignore t (A\<lparr>sin_family := family, sin_port := port\<rparr>) = ignore t A"
    by (simp add: ignore_def ignoredSource_iff split: option.splits)
  show "processRead k h datagram A t =
          ([], Some (t\<lparr>receiveBuffer := snd (recvfrom datagram (clear (receiveBuffer t)))\<rparr>))"
    if "ignore t A"
    using that by (simp add: processRead_def ignore_def Let_def split: prod.splits)
  have passed: "processRead k h datagram A t =
          (case processBuffer k h A (received datagram t) of
             (frs, None) \<Rightarrow> (frs, None)
           | (frs, Some (Returns u t')) \<Rightarrow> (frs, Some t')
           | (frs, Some (Throws t')) \<Rightarrow> (frs, Some (close t')))"
    if "\<not> ignore t A" "0 < fst (recvfrom datagram (clear (receiveBuffer t)))"
    using that by (cases "recvfrom datagram (clear (receiveBuffer t))")
      (simp add: processRead_def ignore_def received_def Let_def)
  show "processRead k h datagram A t =
          (case processBuffer k h A (received datagram t) of
             (frs, None) \<Rightarrow> (frs, None)
           | (frs, Some (Returns u t')) \<Rightarrow> (frs, Some t')
           | (frs, Some (Throws t')) \<Rightarrow> (frs, Some (close t')))"
    if "ignoredAddresses t = None" "0 < fst (recvfrom datagram (clear (receiveBuffer t)))"
    using that passed by (simp add: ignore_def)
  show "processRead k h datagram A t =
          (case processBuffer k h A (received datagram t) of
             (frs, None) \<Rightarrow> (frs, None)
           | (frs, Some (Returns u t')) \<Rightarrow> (frs, Some t')
           | (frs, Some (Throws t')) \<Rightarrow> (frs, Some (close t')))"
    if "\<not> ignore t A" "0 < fst (recvfrom datagram (clear (receiveBuffer t)))"
    using that by (rule passed)
qed

theorem ignore_filter_witness:
  "ignore filtering otherPortB
   \<and> ignore filtering (otherPortB\<lparr>sin_family := 2, sin_port := 5076\<rparr>)
   \<and> processRead (Suc (Suc 0)) serverHandler echoDatagram otherPortB filtering =
       ([], Some (filtering\<lparr>receiveBuffer :=
                    snd (recvfrom echoDatagram (clear (receiveBuffer filtering)))\<rparr>))
   \<and> ignoredAddresses freshTransport = None
   \<and> 0 < fst (recvfrom echoDatagram (clear (receiveBuffer freshTransport)))
   \<and> processRead (Suc (Suc 0)) serverHandler echoDatagram otherPortB freshTransport =
       (case processBuffer (Suc (Suc 0)) serverHandler otherPortB (received echoDatagram freshTransport) of
          (frs, None) \<Rightarrow> (frs, None)
        | (frs, Some (Returns u t')) \<Rightarrow> (frs, Some t')
        | (frs, Some (Throws t')) \<Rightarrow> (frs, Some (close t')))
   \<and> map command (fst (processRead (Suc (Suc 0)) serverHandler echoDatagram otherPortB freshTransport))
       = [2]
   \<and> ignoredAddresses filtering = Some [peerA, peerB]
   \<and> \<not> ignore filtering peerC
   \<and> 0 < fst (recvfrom echoDatagram (clear (receiveBuffer filtering)))
   \<and> processRead (Suc (Suc 0)) serverHandler echoDatagram peerC filtering =
       (case processBuffer (Suc (Suc 0)) serverHandler peerC (received echoDatagram filtering) of
          (frs, None) \<Rightarrow> (frs, None)
        | (frs, Some (Returns u t')) \<Rightarrow> (frs, Some t')
        | (frs, Some (Throws t')) \<Rightarrow> (frs, Some (close t')))
   \<and> map command (fst (processRead (Suc (Suc 0)) serverHandler echoDatagram peerC filtering))
       = [2]"
proof -
  note f = ignore_filter [where t = filtering and A = otherPortB and family = 2 and port = 5076
      and k = "Suc (Suc 0)" and h = serverHandler and datagram = echoDatagram]
  note g = ignore_filter [where t = freshTransport and A = otherPortB and family = 2
      and port = 5076 and k = "Suc (Suc 0)" and h = serverHandler and datagram = echoDatagram]
  note c = ignore_filter [where t = filtering and A = peerC and family = 2
      and port = 5076 and k = "Suc (Suc 0)" and h = serverHandler and datagram = echoDatagram]
  have i: "ignore filtering otherPortB"
    using f by (simp add: filtering_def otherPortB_def peerA_def peerB_def)
  have i': "ignore filtering (otherPortB\<lparr>sin_family := 2, sin_port := 5076\<rparr>)"
    using f i by (simp only:)
  have d: "processRead (Suc (Suc 0)) serverHandler echoDatagram otherPortB filtering =
       ([], Some (filtering\<lparr>receiveBuffer :=
                    snd (recvfrom echoDatagram (clear (receiveBuffer filtering)))\<rparr>))"
    using f i by blast
  have n: "ignoredAddresses freshTransport = None"
    by (simp add: freshTransport_def BlockingUDPTransport_def)
  have r: "0 < fst (recvfrom echoDatagram (clear (receiveBuffer freshTransport)))"
    by (simp add: run_defs echoDatagram_def)
  have p: "processRead (Suc (Suc 0)) serverHandler echoDatagram otherPortB freshTransport =
       (case processBuffer (Suc (Suc 0)) serverHandler otherPortB (received echoDatagram freshTransport) of
          (frs, None) \<Rightarrow> (frs, None)
        | (frs, Some (Returns u t')) \<Rightarrow> (frs, Some t')
        | (frs, Some (Throws t')) \<Rightarrow> (frs, Some (close t')))"
    using g n r by blast
  have e: "map command (fst (processRead (Suc (Suc 0)) serverHandler echoDatagram otherPortB freshTransport))
       = [2]"
    by (simp add: run_defs echoDatagram_def otherPortB_def)
  have l: "ignoredAddresses filtering = Some [peerA, peerB]"
    by (simp add: filtering_def)
  have ni: "\<not> ignore filtering peerC"
    using c by (simp add: filtering_def peerA_def peerB_def peerC_def)
  have r': "0 < fst (recvfrom echoDatagram (clear (receiveBuffer filtering)))"
    by (simp add: run_defs filtering_def echoDatagram_def)
  have p': "processRead (Suc (Suc 0)) serverHandler echoDatagram peerC filtering =
       (case processBuffer (Suc (Suc 0)) serverHandler peerC (received echoDatagram filtering) of
          (frs, None) \<Rightarrow> (frs, None)
        | (frs, Some (Returns u t')) \<Rightarrow> (frs, Some t')
        | (frs, Some (Throws t')) \<Rightarrow> (frs, Some (close t')))"
    using c ni r' by blast
  have e': "map command (fst (processRead (Suc (Suc 0)) serverHandler echoDatagram peerC filtering))
       = [2]"
    by (simp add: run_defs filtering_def echoDatagram_def peerC_def peerA_def peerB_def)
  from i i' d n r p e l ni r' p' e' show ?thesis
    by (intro conjI)
qed

section \<open>Properties of the transport registry\<close>

lemma stored_put: "stored (put transport r) = insert (entryOf transport) (stored r)"
  by (auto simp: put_def stored_def entryOf_def Let_def split: option.splits if_splits)

lemma count_put:
  "transportCount (put transport r)
   = transportCount r + (if entryOf transport \<in> stored r then 0 else 1)"
  by (auto simp: put_def stored_def entryOf_def Let_def split: option.splits)

lemma nonempty_put:
  "\<forall>a. transports r a \<noteq> Some Map.empty \<Longrightarrow> \<forall>a. transports (put transport r) a \<noteq> Some Map.empty"
  by (auto simp: put_def Let_def split: option.splits if_splits)

lemma remove_cases:
  obtains (absent) "entryOf transport \<notin> stored r" "remove transport r = (None, r)"
  | (last) m x where "transports r (fst (entryOf transport)) = Some m"
      "m (snd (entryOf transport)) = Some x"
      "\<And>q. q \<noteq> snd (entryOf transport) \<Longrightarrow> m q = None"
      "remove transport r =
         (Some x, r\<lparr>transports := (transports r)(fst (entryOf transport) := None),
                    transportCount := transportCount r - 1\<rparr>)"
  | (more) m x where "transports r (fst (entryOf transport)) = Some m"
      "m (snd (entryOf transport)) = Some x"
      "m(snd (entryOf transport) := None) \<noteq> Map.empty"
      "remove transport r =
         (Some x, r\<lparr>transports := (transports r)(fst (entryOf transport) \<mapsto>
                                      m(snd (entryOf transport) := None)),
                    transportCount := transportCount r - 1\<rparr>)"
proof (cases "transports r (fst (entryOf transport))")
  case None
  then show ?thesis
    by (intro absent) (auto simp: stored_def entryOf_def remove_def)
next
  case (Some m)
  show ?thesis
  proof (cases "m (snd (entryOf transport))")
    case None
    with Some show ?thesis
      by (intro absent) (auto simp: stored_def entryOf_def remove_def)
  next
    case x: (Some x)
    show ?thesis
    proof (cases "m(snd (entryOf transport) := None) = Map.empty")
      case True
      then have "m q = None" if "q \<noteq> snd (entryOf transport)" for q
        using that by (metis fun_upd_apply)
      with Some x True show ?thesis
        by (intro last [of m x]) (simp_all add: entryOf_def remove_def)
    next
      case False
      with Some x show ?thesis
        by (intro more [of m x]) (simp_all add: entryOf_def remove_def)
    qed
  qed
qed

lemma stored_remove: "stored (snd (remove transport r)) = stored r - {entryOf transport}"
proof (cases transport r rule: remove_cases)
  case absent
  then show ?thesis by simp
next
  case (last m x)
  then show ?thesis
    by (cases "entryOf transport") (auto simp: stored_def split: if_splits, (metis option.inject option.distinct(1))+)
next
  case (more m x)
  then show ?thesis
    by (cases "entryOf transport") (auto simp: stored_def split: if_splits)
qed

lemma count_remove:
  "transportCount (snd (remove transport r))
   = transportCount r - (if entryOf transport \<in> stored r then 1 else 0)"
proof (cases transport r rule: remove_cases)
  case absent
  then show ?thesis by simp
next
  case (last m x)
  then show ?thesis
    by (cases "entryOf transport") (auto simp: stored_def)
next
  case (more m x)
  then show ?thesis
    by (cases "entryOf transport") (auto simp: stored_def)
qed

lemma nonempty_remove:
  "\<forall>a. transports r a \<noteq> Some Map.empty \<Longrightarrow>
   \<forall>a. transports (snd (remove transport r)) a \<noteq> Some Map.empty"
  by (cases transport r rule: remove_cases) auto

lemma consistent_put: "consistent r \<Longrightarrow> consistent (put transport r)"
  by (auto simp: consistent_def stored_put count_put nonempty_put card_insert_if)

lemma consistent_remove: "consistent r \<Longrightarrow> consistent (snd (remove transport r))"
proof -
  assume c: "consistent r"
  then have f: "finite (stored r)" by (simp add: consistent_def)
  have "entryOf transport \<in> stored r \<Longrightarrow> 0 < card (stored r)"
    using f by (auto simp: card_gt_0_iff)
  then show ?thesis
    using c f nonempty_remove [of r transport]
    by (auto simp: consistent_def stored_remove count_remove card_Diff_singleton_if of_nat_diff)
qed

lemma consistent_clear: "consistent (clearRegistry r)"
  by (simp add: consistent_def clearRegistry_def stored_def)

lemma stored_new: "stored newTransportRegistry = {}"
  by (simp add: newTransportRegistry_def stored_def)

lemma consistent_new: "consistent newTransportRegistry"
  by (simp add: consistent_def newTransportRegistry_def stored_def)

lemma consistent_call: "consistent r \<Longrightarrow> consistent (call c r)"
  by (cases c) (simp_all add: consistent_put consistent_remove consistent_clear)

lemma consistent_calls: "consistent r \<Longrightarrow> consistent (calls cs r)"
  unfolding calls_def by (induction cs arbitrary: r) (simp_all add: consistent_call)

text \<open>
  Claim C2. After any sequence of \<open>put\<close>, \<open>remove\<close> and \<open>clear\<close> calls on a fresh registry,
  the pairs of address and priority that are stored are finitely many, the 32-bit value
  that \<open>numberOfActiveTransports\<close> returns is their number modulo \<open>2^32\<close>, so that it reads as
  their number whenever fewer than \<open>2^31\<close> pairs are stored, and no address is mapped to an
  empty map of priorities.
\<close>

theorem registry_count:
  "finite (stored (calls cs newTransportRegistry))
   \<and> numberOfActiveTransports (calls cs newTransportRegistry)
       = word_of_nat (card (stored (calls cs newTransportRegistry)))
   \<and> (card (stored (calls cs newTransportRegistry)) < 2 ^ 31 \<longrightarrow>
        sint (numberOfActiveTransports (calls cs newTransportRegistry))
        = int (card (stored (calls cs newTransportRegistry))))
   \<and> (\<forall>a. transports (calls cs newTransportRegistry) a \<noteq> Some Map.empty)"
proof -
  let ?r = "calls cs newTransportRegistry"
  have c: "consistent ?r"
    by (rule consistent_calls [OF consistent_new])
  then have n: "numberOfActiveTransports ?r = word_of_nat (card (stored ?r))"
    by (simp add: consistent_def numberOfActiveTransports_def)
  have "sint (numberOfActiveTransports ?r) = int (card (stored ?r))"
    if "card (stored ?r) < 2 ^ 31"
    using sint_of_nat_small [OF that] by (simp only: n)
  with c n show ?thesis
    by (simp add: consistent_def)
qed

theorem registry_count_witness:
  "card (stored (calls [Put transportA0, Put transportA1, Remove transportA0]
                   newTransportRegistry)) < 2 ^ 31
   \<and> sint (numberOfActiveTransports (calls [Put transportA0, Put transportA1, Remove transportA0]
                                       newTransportRegistry))
       = int (card (stored (calls [Put transportA0, Put transportA1, Remove transportA0]
                              newTransportRegistry)))
   \<and> stored (calls [Put transportA0, Put transportA1, Remove transportA0] newTransportRegistry)
       = {(peerA, 1)}
   \<and> numberOfActiveTransports (calls [Put transportA0, Put transportA1, Remove transportA0]
                                 newTransportRegistry) = 1
   \<and> transports (calls [Put transportA0, Put transportA1, Remove transportA0]
                      newTransportRegistry) peerA \<noteq> Some Map.empty"
proof -
  let ?r = "calls [Put transportA0, Put transportA1, Remove transportA0] newTransportRegistry"
  have s: "stored ?r = {(peerA, 1)}"
    by (auto simp: calls_def stored_put stored_remove stored_new entryOf_def transportA0_def
        transportA1_def addressKey_def)
  then have small: "card (stored ?r) < 2 ^ 31"
    by simp
  note t = registry_count [of "[Put transportA0, Put transportA1, Remove transportA0]"]
  from t small have "sint (numberOfActiveTransports ?r) = int (card (stored ?r))"
    by blast
  moreover from t s have "numberOfActiveTransports ?r = 1"
    by simp
  moreover from t have "transports ?r peerA \<noteq> Some Map.empty"
    by blast
  ultimately show ?thesis
    using s small by (intro conjI)
qed

text \<open>
  Claim C10 has the registry keyed by the pointer to the remote address. With the keys
  compared as the spec has them, by the address, two transports whose address objects
  differ and hold the same address are found under each other's pointer, by \<open>get\<close> and by
  \<open>remove\<close>, and share one key of the outer map.
\<close>

theorem registry_pointer_keys_counterexample:
  "getRemoteAddress transportA0 \<noteq> getRemoteAddress transportA0'
   \<and> target (getRemoteAddress transportA0) = target (getRemoteAddress transportA0')
   \<and> get [] (getRemoteAddress transportA0') 0 (put transportA0 newTransportRegistry)
       = Some transportA0
   \<and> fst (remove transportA0' (put transportA0 newTransportRegistry)) = Some transportA0
   \<and> dom (transports (put transportA0' (put transportA0 newTransportRegistry))) = {peerA}"
  by (simp add: get_def put_def remove_def Let_def newTransportRegistry_def transportA0_def
      transportA0'_def addressKey_def)

lemma get_put:
  "get type address priority (put transport r) =
     (if target address = target (getRemoteAddress transport) \<and> priority = getPriority transport
      then Some transport else get type address priority r)"
  by (auto simp: get_def put_def Let_def addressKey_def split: option.splits)

lemma remove_get:
  "fst (remove transport r) = get type (getRemoteAddress transport) (getPriority transport) r"
  by (simp add: get_def remove_def Let_def split: option.splits)

lemma dom_put:
  "dom (transports (put transport r))
   = insert (target (getRemoteAddress transport)) (dom (transports r))"
  by (auto simp: put_def Let_def addressKey_def split: option.splits if_splits)

text \<open>
  Claim C10, amended. The registry is keyed by the value of the remote address and the
  priority: after \<open>put\<close> of a transport, \<open>get\<close> with an address of the same value and the same
  priority returns that transport, whichever object holds the address, and any other
  lookup is as before; \<open>remove\<close> returns what \<open>get\<close> finds for the transport's address and
  priority, and afterwards that entry is gone and every other lookup is as before; \<open>put\<close>
  adds the value of the address to the keys of the outer map.
\<close>

theorem registry_keyed_by_value:
  "get type address priority (put transport r) =
     (if target address = target (getRemoteAddress transport) \<and> priority = getPriority transport
      then Some transport else get type address priority r)
   \<and> fst (remove transport r) = get type (getRemoteAddress transport) (getPriority transport) r
   \<and> get type address priority (snd (remove transport r)) =
     (if target address = target (getRemoteAddress transport) \<and> priority = getPriority transport
      then None else get type address priority r)
   \<and> dom (transports (put transport r))
     = insert (target (getRemoteAddress transport)) (dom (transports r))"
proof -
  have "get type address priority (snd (remove transport r)) =
     (if target address = target (getRemoteAddress transport) \<and> priority = getPriority transport
      then None else get type address priority r)"
    by (cases transport r rule: remove_cases)
      (auto simp: get_def entryOf_def addressKey_def stored_def split: option.splits if_splits)
  then show ?thesis
    using get_put remove_get dom_put by blast
qed

theorem registry_keyed_by_value_witness:
  "get [] (getRemoteAddress transportA0') 0 (put transportA0 newTransportRegistry) = Some transportA0
   \<and> get [] (getRemoteAddress transportA0') 0
        (snd (remove transportA0' (put transportA0 newTransportRegistry))) = None
   \<and> get [] (getRemoteAddress transportA1) 1 (put transportA0 newTransportRegistry) = None"
  using registry_keyed_by_value [of "[]" "getRemoteAddress transportA0'" 0 transportA0 newTransportRegistry]
    registry_keyed_by_value [of "[]" "getRemoteAddress transportA0'" 0 transportA0'
      "put transportA0 newTransportRegistry"]
    registry_keyed_by_value [of "[]" "getRemoteAddress transportA1" 1 transportA0 newTransportRegistry]
  by (simp add: transportA0_def transportA0'_def transportA1_def get_def newTransportRegistry_def)

section \<open>Properties of the beacon emitter\<close>

lemma reschedule_fields:
  "beaconSequenceID (reschedule em) = beaconSequenceID em"
  "fastBeaconPeriod (reschedule em) = fastBeaconPeriod em"
  "slowBeaconPeriod (reschedule em) = slowBeaconPeriod em"
  "beaconCountLimit (reschedule em) = beaconCountLimit em"
  by (simp_all add: reschedule_def scheduleAfterDelay_def Let_def)

lemma beacons_fields:
  "beaconSequenceID (beacons n em) = beaconSequenceID em + word_of_nat n"
  "fastBeaconPeriod (beacons n em) = fastBeaconPeriod em"
  "slowBeaconPeriod (beacons n em) = slowBeaconPeriod em"
  "beaconCountLimit (beacons n em) = beaconCountLimit em"
  by (induction n) (simp_all add: send_def reschedule_fields start_def scheduleAfterDelay_def)

lemma scheduled_beacons:
  assumes "0 < fastBeaconPeriod em" "0 < slowBeaconPeriod em"
  shows "scheduled (beacons n em) = scheduled em @ 0 # map (delayAfter em) [1..<Suc n]"
proof (induction n)
  case 0
  show ?case by (simp add: start_def scheduleAfterDelay_def)
next
  case (Suc n)
  have "scheduled (send (beacons n em)) = scheduled (beacons n em) @ [delayAfter em (Suc n)]"
    using assms
    by (simp add: send_def reschedule_def scheduleAfterDelay_def Let_def beacons_fields
        delayAfter_def ac_simps)
  with Suc show ?case by simp
qed

lemma sint_int16_of_nat: "i < 32768 \<Longrightarrow> sint (word_of_nat i :: int16) = int i"
  by (simp add: signed_of_nat signed_take_bit_int_eq_self)

lemma scheduled_nth:
  assumes "beaconSequenceID em = 0" "scheduled em = []"
    and "0 < fastBeaconPeriod em" "0 < slowBeaconPeriod em"
    and "1 \<le> i" "i \<le> n"
  shows "scheduled (beacons n em) ! 0 = 0" and "scheduled (beacons n em) ! i = delayAfter em i"
proof -
  have s: "scheduled (beacons n em) = 0 # map (delayAfter em) [1..<Suc n]"
    using scheduled_beacons [OF assms(3,4)] assms(2) by simp
  show "scheduled (beacons n em) ! 0 = 0"
    by (simp add: s)
  obtain j where j: "i = Suc j" using assms(5) by (cases i) auto
  show "scheduled (beacons n em) ! i = delayAfter em i"
    using assms(6) by (simp add: s j del: upt_Suc)
qed

lemma delayAfter_before_wrap:
  assumes "beaconSequenceID em = 0" "sint (beaconCountLimit em) = int L" "i < 32768"
  shows "delayAfter em i = (if i < L then fastBeaconPeriod em else slowBeaconPeriod em)"
  using sint_int16_of_nat [OF assms(3)] by (auto simp: delayAfter_def assms(1,2))

text \<open>
  Claim C3, amended. For an emitter fresh from a constructor, with positive periods and
  count limit \<open>L\<close>: the first delay handed to the timer is the 0 of \<open>start\<close>; the send of
  beacon \<open>i\<close>, for \<open>i\<close> from 1 to 32767, schedules the next callback after the fast period
  when \<open>i < L\<close> and after the slow period when \<open>i \<ge> L\<close>. So, counting the schedule of
  \<open>start\<close> as the first decision, the first \<open>L - 1\<close> beacons are followed by the fast
  period, and decision \<open>L + 1\<close>, taken when beacon \<open>L\<close> has been sent, is the first to use
  the slow period.
\<close>

theorem beacon_cadence:
  assumes fresh: "beaconSequenceID em = 0" "scheduled em = []"
    and periods: "0 < fastBeaconPeriod em" "0 < slowBeaconPeriod em"
    and limit: "sint (beaconCountLimit em) = int L"
    and i: "1 \<le> i" "i \<le> n" "i < 32768"
  shows "scheduled (beacons n em) ! 0 = 0
         \<and> scheduled (beacons n em) ! i
             = (if i < L then fastBeaconPeriod em else slowBeaconPeriod em)"
  using scheduled_nth [OF fresh periods i(1,2)] delayAfter_before_wrap [OF fresh(1) limit i(3)]
  by simp

lemma constructed:
  "beaconSequenceID (BeaconEmitter_context p) = 0" "scheduled (BeaconEmitter_context p) = []"
  "0 < fastBeaconPeriod (BeaconEmitter_context p)" "0 < slowBeaconPeriod (BeaconEmitter_context p)"
  "sint (beaconCountLimit (BeaconEmitter_context p)) = int 10"
  "beaconSequenceID BeaconEmitter_address = 0" "scheduled BeaconEmitter_address = []"
  "0 < fastBeaconPeriod BeaconEmitter_address" "0 < slowBeaconPeriod BeaconEmitter_address"
  "sint (beaconCountLimit BeaconEmitter_address) = int 10"
  by (simp_all add: BeaconEmitter_context_def BeaconEmitter_address_def Let_def
      EPICS_CA_MIN_BEACON_PERIOD_def EPICS_CA_MIN_BEACON_COUNT_LIMIT_def max_def)

theorem beacon_cadence_witness:
  "beaconSequenceID BeaconEmitter_address = 0 \<and> scheduled BeaconEmitter_address = []
   \<and> 0 < fastBeaconPeriod BeaconEmitter_address \<and> 0 < slowBeaconPeriod BeaconEmitter_address
   \<and> sint (beaconCountLimit BeaconEmitter_address) = int 10
   \<and> (1 :: nat) \<le> 9 \<and> (9 :: nat) \<le> 12 \<and> (9 :: nat) < 32768
   \<and> scheduled (beacons 12 BeaconEmitter_address) ! 0 = 0
   \<and> scheduled (beacons 12 BeaconEmitter_address) ! 9 = 1
   \<and> scheduled (beacons 12 BeaconEmitter_address) ! 10 = 180
   \<and> scheduled (beacons 12 BeaconEmitter_address) ! 12 = 180"
  using beacon_cadence [OF constructed(6-10), of 9 12]
    beacon_cadence [OF constructed(6-10), of 10 12]
    beacon_cadence [OF constructed(6-10), of 12 12]
    constructed(6-10)
  by (simp add: BeaconEmitter_address_def EPICS_CA_MIN_BEACON_PERIOD_def)

text \<open>
  Claim C3 has each of the first \<open>beaconCountLimit\<close> beacons followed by the fast period.
  With the limit 10, the tenth beacon is followed by the slow period.
\<close>

theorem beacon_cadence_counterexample:
  "sint (beaconCountLimit BeaconEmitter_address) = 10
   \<and> scheduled (beacons 10 BeaconEmitter_address) ! 10 = slowBeaconPeriod BeaconEmitter_address
   \<and> slowBeaconPeriod BeaconEmitter_address \<noteq> fastBeaconPeriod BeaconEmitter_address"
proof -
  have "scheduled (beacons 10 BeaconEmitter_address) ! 10 = delayAfter BeaconEmitter_address 10"
    using scheduled_nth(2) [OF constructed(6-9), of 10 10] by simp
  moreover have "delayAfter BeaconEmitter_address 10 = slowBeaconPeriod BeaconEmitter_address"
    using delayAfter_before_wrap [OF constructed(6) constructed(10), of 10] by simp
  ultimately show ?thesis
    by (simp add: BeaconEmitter_address_def EPICS_CA_MIN_BEACON_PERIOD_def)
qed

text \<open>
  Beacon 32768 takes the 16-bit sequence id to \<open>-32768\<close>, below any count limit that is not
  negative: the emitter is back at the fast period.
\<close>

lemma beacon_wraps:
  assumes fresh: "beaconSequenceID em = 0" "scheduled em = []"
    and periods: "0 < fastBeaconPeriod em" "0 < slowBeaconPeriod em"
    and limit: "0 \<le> sint (beaconCountLimit em)"
    and n: "32768 \<le> n"
  shows "scheduled (beacons n em) ! 32768 = fastBeaconPeriod em"
proof -
  have s: "scheduled (beacons n em) = 0 # map (delayAfter em) [1..<Suc n]"
    using scheduled_beacons [OF periods] fresh by simp
  have "scheduled (beacons n em) ! 32768 = delayAfter em 32768"
  proof -
    have "(0 # map (delayAfter em) [1..<Suc n]) ! Suc 32767 = map (delayAfter em) [1..<Suc n] ! 32767"
      by (rule nth_Cons_Suc)
    also have "\<dots> = delayAfter em ([1..<Suc n] ! 32767)"
      using n by (intro nth_map) simp
    also have "[1..<Suc n] ! 32767 = 32768"
      using n by (subst nth_upt) simp_all
    finally show ?thesis by (simp add: s)
  qed
  moreover have "sint (word_of_nat 32768 :: int16) = - 32768"
    by simp
  ultimately show ?thesis
    using limit by (simp add: delayAfter_def fresh)
qed

end
